theory Spec2Isabelle
  imports Main "HOL-Library.Sublist" "HOL-Library.Multiset" "HOL-Library.Option_ord"
begin

section \<open>Python strings\<close>

text \<open>
  A Python \<open>str\<close> is modelled as a \<open>string\<close>, one \<open>char\<close> per code point.
  \<open>isspace\<close> lists the ASCII code points for which \<open>str.isspace\<close> holds; they
  are what \<open>str.strip()\<close> removes from both ends.
\<close>

definition isspace :: "char \<Rightarrow> bool" where
  "isspace c \<longleftrightarrow>
     c \<in> set [CHR 0x09, CHR 0x0A, CHR 0x0B, CHR 0x0C, CHR 0x0D,
              CHR 0x1C, CHR 0x1D, CHR 0x1E, CHR 0x1F, CHR 0x20]"

definition strip :: "string \<Rightarrow> string" where
  "strip s = rev (dropWhile isspace (rev (dropWhile isspace s)))"

text \<open>
  \<open>find_sep sep s\<close> is the leftmost occurrence of \<open>sep\<close> in \<open>s\<close>: the text before it
  and the text after it. \<open>split sep n s\<close> is \<open>s.split(sep, maxsplit=n)\<close> for a
  non-empty separator: at most \<open>n\<close> cuts, scanning from the left.
\<close>

fun find_sep :: "string \<Rightarrow> string \<Rightarrow> (string \<times> string) option" where
  "find_sep sep [] = None"
| "find_sep sep (c # cs) =
     (if prefix sep (c # cs) then Some ([], drop (length sep) (c # cs))
      else map_option (\<lambda>(b, a). (c # b, a)) (find_sep sep cs))"

fun split :: "string \<Rightarrow> nat \<Rightarrow> string \<Rightarrow> string list" where
  "split sep 0 s = [s]"
| "split sep (Suc n) s =
     (case find_sep sep s of
        None \<Rightarrow> [s]
      | Some (b, a) \<Rightarrow> b # split sep n a)"

text \<open>\<open>s.split("\n")\<close>: no bound on the cuts; a string has fewer newlines than characters.\<close>

definition split_lines :: "string \<Rightarrow> string list" where
  "split_lines s = split [CHR 0x0A] (length s) s"

section \<open>Dates and times\<close>

text \<open>
  A timezone-aware \<open>datetime\<close> with microsecond 0: the calendar fields and the UTC offset
  of its \<open>tzinfo\<close> in seconds. The constructor checks the ranges of the fields and raises
  \<open>ValueError\<close> outside them.
\<close>

datatype error = TypeError | ValueError

record datetime =
  year :: int
  month :: int
  day :: int
  hour :: int
  minute :: int
  second :: int
  utcoffset :: int

definition is_leap :: "int \<Rightarrow> bool" where
  "is_leap y \<longleftrightarrow> y mod 4 = 0 \<and> (y mod 100 \<noteq> 0 \<or> y mod 400 = 0)"

definition days_before_year :: "int \<Rightarrow> int" where
  "days_before_year y = (y - 1) * 365 + (y - 1) div 4 - (y - 1) div 100 + (y - 1) div 400"

definition days_in_month :: "int \<Rightarrow> int \<Rightarrow> int" where
  "days_in_month y m =
     (if m = 2 \<and> is_leap y then 29
      else [31, 28, 31, 30, 31, 30, 31, 31, 30, 31, 30, 31] ! nat (m - 1))"

definition days_before_month :: "int \<Rightarrow> int \<Rightarrow> int" where
  "days_before_month y m =
     [0, 31, 59, 90, 120, 151, 181, 212, 243, 273, 304, 334] ! nat (m - 1)
       + (if m > 2 \<and> is_leap y then 1 else 0)"

definition ymd2ord :: "int \<Rightarrow> int \<Rightarrow> int \<Rightarrow> int" where
  "ymd2ord y m d = days_before_year y + days_before_month y m + d"

definition datetime_new ::
  "int \<Rightarrow> int \<Rightarrow> int \<Rightarrow> int \<Rightarrow> int \<Rightarrow> int \<Rightarrow> int \<Rightarrow> error + datetime" where
  "datetime_new y m d H M S off =
     (if 1 \<le> y \<and> y \<le> 9999 \<and> 1 \<le> m \<and> m \<le> 12 \<and> 1 \<le> d \<and> d \<le> days_in_month y m
         \<and> 0 \<le> H \<and> H \<le> 23 \<and> 0 \<le> M \<and> M \<le> 59 \<and> 0 \<le> S \<and> S \<le> 59
      then Inr \<lparr>year = y, month = m, day = d, hour = H, minute = M, second = S,
                utcoffset = off\<rparr>
      else Inl ValueError)"

text \<open>
  Two aware datetimes are compared as points in time: the local time minus the UTC
  offset, in seconds since the start of 0001-01-01.
\<close>

definition instant :: "datetime \<Rightarrow> int" where
  "instant t =
     ymd2ord (year t) (month t) (day t) * 86400
       + hour t * 3600 + minute t * 60 + second t - utcoffset t"

definition dt_gt :: "datetime \<Rightarrow> datetime \<Rightarrow> bool" where
  "dt_gt a b \<longleftrightarrow> instant a > instant b"

section \<open>The data classes\<close>

record Entry =
  entry_url :: string
  entry_title :: string
  pub_date :: datetime

record Feed =
  url :: string
  title :: "string option"
  entries :: "Entry list"
  retrieval_failed :: bool
  newest_retrieved_date :: "datetime option"
  is_enabled :: bool

text \<open>\<open>Feed(url)\<close> and \<open>Feed(url, is_enabled=True)\<close>: every other field at its default.\<close>

definition Feed_new :: "string \<Rightarrow> bool \<Rightarrow> Feed" where
  "Feed_new u en =
     \<lparr>url = u, title = None, entries = [], retrieval_failed = False,
      newest_retrieved_date = None, is_enabled = en\<rparr>"

section \<open>What feedparser returns\<close>

text \<open>
  \<open>feedparser.parse\<close> is the network; the model takes it as a function from the URL to
  the parsed document. Of the document the program reads \<open>bozo\<close>, the title of the feed
  when it has one, and the entries. Of an entry it reads the keys \<open>published_parsed\<close>,
  \<open>link\<close> and \<open>title\<close>. The key \<open>published_parsed\<close> is absent (\<open>None\<close>), holds the
  Python value \<open>None\<close> (\<open>Some None\<close>: feedparser stores that when the feed gives a
  date that none of its date handlers can read), or holds a 9-tuple of integers.
\<close>

type_synonym struct_time = "int \<times> int \<times> int \<times> int \<times> int \<times> int \<times> int \<times> int \<times> int"

record item =
  published_parsed :: "struct_time option option"
  link :: "string option"
  item_title :: "string option"

record parsed =
  bozo :: bool
  feed_title :: "string option"
  parsed_entries :: "item list"

section \<open>update\_feed\<close>

text \<open>\<open>w is None or pub_date > w\<close>, the test of lines 130 and 136.\<close>

definition is_newer :: "datetime \<Rightarrow> datetime option \<Rightarrow> bool" where
  "is_newer pd w = (case w of None \<Rightarrow> True | Some d \<Rightarrow> dt_gt pd d)"

text \<open>\<open>xs.sort(key=k, reverse=True)\<close>: a stable sort, largest key first.\<close>

definition sort_reverse :: "('a \<Rightarrow> int) \<Rightarrow> 'a list \<Rightarrow> 'a list" where
  "sort_reverse k xs = rev (sort_key k (rev xs))"

definition get_default :: "string option \<Rightarrow> string \<Rightarrow> string" where
  "get_default v dflt = (case v of None \<Rightarrow> dflt | Some s \<Rightarrow> s)"

text \<open>\<open>Entry(url, title, pub_date)\<close> with the two \<open>entry.get(key, default)\<close> of lines 131-132.\<close>

definition entry_of :: "item \<Rightarrow> datetime \<Rightarrow> Entry" where
  "entry_of e pd =
     \<lparr>entry_url = get_default (link e) ''(URL missing)'',
      entry_title = get_default (item_title e) ''(Title missing)'',
      pub_date = pd\<rparr>"

text \<open>
  The loop over \<open>data.entries\<close>. \<open>w\<close> is \<open>feed.newest_retrieved_date\<close>, which the loop
  does not change; the state is \<open>feed.entries\<close> and the local \<open>newest_pub_date\<close>.
  Unpacking the value \<open>None\<close> raises \<open>TypeError\<close>; the constructor of \<open>datetime\<close> raises
  \<open>ValueError\<close>; the published time is in UTC.
\<close>

fun update_entries ::
  "datetime option \<Rightarrow> item list \<Rightarrow> Entry list \<times> datetime option
     \<Rightarrow> error + (Entry list \<times> datetime option)" where
  "update_entries w [] st = Inr st"
| "update_entries w (e # es) (ents, newest) =
     (case published_parsed e of
        None \<Rightarrow> update_entries w es (ents, newest)
      | Some None \<Rightarrow> Inl TypeError
      | Some (Some (y, m, d, H, M, S, _)) \<Rightarrow>
          (case datetime_new y m d H M S 0 of
             Inl err \<Rightarrow> Inl err
           | Inr pd \<Rightarrow>
               if is_newer pd w then
                 update_entries w es
                   (ents @ [entry_of e pd],
                    if is_newer pd newest then Some pd else newest)
               else update_entries w es (ents, newest)))"

definition update_feed :: "(string \<Rightarrow> parsed) \<Rightarrow> Feed \<Rightarrow> error + Feed" where
  "update_feed parse feed =
     (let data = parse (url feed) in
      if bozo data then Inr (feed\<lparr>retrieval_failed := True\<rparr>)
      else
        let feed1 = (case feed_title data of
                       Some t \<Rightarrow> feed\<lparr>title := Some t\<rparr>
                     | None \<Rightarrow> feed)
        in case update_entries (newest_retrieved_date feed1) (parsed_entries data)
                  (entries feed1, newest_retrieved_date feed1) of
             Inl err \<Rightarrow> Inl err
           | Inr (ents, newest) \<Rightarrow>
               Inr (feed1\<lparr>entries := sort_reverse (\<lambda>a. instant (pub_date a)) ents,
                          newest_retrieved_date := newest\<rparr>))"

section \<open>The dictionary of feeds\<close>

text \<open>
  A Python \<open>dict\<close> keeps its keys in the order of their first insertion, so \<open>feed_data\<close>
  is a list of pairs. \<open>dict_setitem\<close> is \<open>d[k] = v\<close>: the value of a key that is
  there is replaced where it stands, a new key goes to the end. \<open>dict_modify\<close> is an
  assignment to an attribute of \<open>d[k]\<close> for a key that is there. Lookup is \<open>map_of\<close>.
\<close>

type_synonym feeds = "(string \<times> Feed) list"

fun dict_setitem :: "('k \<times> 'v) list \<Rightarrow> 'k \<Rightarrow> 'v \<Rightarrow> ('k \<times> 'v) list" where
  "dict_setitem [] k v = [(k, v)]"
| "dict_setitem ((k', v') # d) k v =
     (if k' = k then (k, v) # d else (k', v') # dict_setitem d k v)"

definition dict_contains :: "('k \<times> 'v) list \<Rightarrow> 'k \<Rightarrow> bool" where
  "dict_contains d k \<longleftrightarrow> k \<in> set (map fst d)"

definition dict_modify :: "('k \<times> 'v) list \<Rightarrow> 'k \<Rightarrow> ('v \<Rightarrow> 'v) \<Rightarrow> ('k \<times> 'v) list" where
  "dict_modify d k f = map (\<lambda>(k', v). if k' = k then (k', f v) else (k', v)) d"

definition dict_values :: "('k \<times> 'v) list \<Rightarrow> 'v list" where
  "dict_values d = map snd d"

section \<open>Files and streams\<close>

text \<open>
  The files are a map from the path to the text; \<open>trace\<close> records each call that opens
  or creates a file, in order; \<open>stdout\<close> and \<open>stderr\<close> hold one string for each call
  of \<open>print\<close>. The text of a file is what \<open>file.read()\<close> returns.
\<close>

datatype io = Open_read string | Open_write string | Touch string

record world =
  files :: "string \<Rightarrow> string option"
  trace :: "io list"
  stdout :: "string list"
  stderr :: "string list"

text \<open>The two paths are kept as written; \<open>expanduser\<close> puts the home directory for \<open>~\<close>.\<close>

definition FEED_FILE :: string where
  "FEED_FILE = ''~/.plaintextfeeds''"

definition DATA_FILE :: string where
  "DATA_FILE = ''~/.plaintextfeeds.data''"

definition DATE_FORMAT :: string where
  "DATE_FORMAT = ''%Y-%m-%dT%H:%M:%S%z''"

section \<open>get\_info\<close>

text \<open>
  \<open>strftime\<close> and \<open>strptime\<close> belong to the library. The program takes them as they
  are, and so do the definitions below: \<open>strftime t fmt\<close> is \<open>t.strftime(fmt)\<close>, and
  \<open>strptime s fmt\<close> is \<open>datetime.strptime(s, fmt)\<close>, with \<open>None\<close> where it raises
  \<open>ValueError\<close>.
\<close>

type_synonym strftime = "datetime \<Rightarrow> string \<Rightarrow> string"
type_synonym strptime = "string \<Rightarrow> string \<Rightarrow> datetime option"

definition Entry_get_info :: "strftime \<Rightarrow> Entry \<Rightarrow> string" where
  "Entry_get_info strftime a =
     ''  Entry: '' @ entry_title a @ [CHR 0x0A]
       @ ''   Link: '' @ entry_url a @ [CHR 0x0A]
       @ ''   Date: '' @ strftime (pub_date a) ''%d %B %Y at %H:%M:%S''"

text \<open>\<open>if self.title\<close> holds for a title that is there and not empty.\<close>

definition Feed_get_info :: "Feed \<Rightarrow> string" where
  "Feed_get_info feed =
     (let retrieval_failed_msg = (if retrieval_failed feed then '' (retrieval failed)'' else [])
      in case title feed of
           Some t \<Rightarrow>
             if t \<noteq> [] then ''Feed: '' @ t @ retrieval_failed_msg @ [CHR 0x0A] @ '' URL: '' @ url feed
             else ''Feed: '' @ url feed
         | None \<Rightarrow> ''Feed: '' @ url feed)"

section \<open>get\_url\_list\<close>

definition get_url_list :: "string \<Rightarrow> world \<Rightarrow> string list \<times> world" where
  "get_url_list feed_file w =
     (case files w feed_file of
        None \<Rightarrow>
          ([], w\<lparr>files := (files w)(feed_file \<mapsto> []),
                 trace := trace w @ [Open_read feed_file, Touch feed_file]\<rparr>)
      | Some text \<Rightarrow>
          (filter (\<lambda>line. length line > 0 \<and> hd line \<noteq> CHR ''#'') (map strip (split_lines text)),
           w\<lparr>trace := trace w @ [Open_read feed_file]\<rparr>))"

section \<open>get\_feed\_data\<close>

text \<open>
  The body of the loop over the lines of the data file. \<open>split\<close> always returns a part,
  so \<open>parts ! 0\<close> is there; \<open>parts ! 1\<close> is read only when there are two parts. A
  timestamp that \<open>strptime\<close> rejects leaves \<open>newest_retrieved_date\<close> at \<open>None\<close>
  (\<open>except ValueError: pass\<close>). The key is in the dictionary when the watermark is assigned.
\<close>

definition load_line :: "strptime \<Rightarrow> string \<Rightarrow> feeds \<Rightarrow> string \<Rightarrow> feeds" where
  "load_line strptime date_format feed_data line =
     (let parts = split ''last updated'' 2 line in
      if length parts > 0 then
        let u = strip (parts ! 0) in
        if length u = 0 then feed_data
        else
          let newest_retrieved_date' =
                (if length parts > 1 then strptime (strip (parts ! 1)) date_format else None);
              feed_data1 =
                (if \<not> dict_contains feed_data u then dict_setitem feed_data u (Feed_new u False)
                 else feed_data)
          in dict_modify feed_data1 u (\<lambda>f. f\<lparr>newest_retrieved_date := newest_retrieved_date'\<rparr>)
      else feed_data)"

definition get_feed_data ::
  "strptime \<Rightarrow> string \<Rightarrow> string \<Rightarrow> string list \<Rightarrow> world \<Rightarrow> feeds \<times> world" where
  "get_feed_data strptime data_file date_format urls w =
     (let feed_data = foldl (\<lambda>d u. dict_setitem d u (Feed_new u True)) [] urls;
          w' = w\<lparr>trace := trace w @ [Open_read data_file]\<rparr>
      in case files w data_file of
           None \<Rightarrow> (feed_data, w')
         | Some text \<Rightarrow>
             (foldl (load_line strptime date_format) feed_data (split_lines text), w'))"

section \<open>save\_feed\_data\<close>

text \<open>The line of one feed; a \<open>datetime\<close> is always true, so the test is whether it is there.\<close>

definition feed_line :: "strftime \<Rightarrow> string \<Rightarrow> Feed \<Rightarrow> string" where
  "feed_line strftime date_format feed =
     (case newest_retrieved_date feed of
        Some t \<Rightarrow> url feed @ '' last updated '' @ strftime t date_format
      | None \<Rightarrow> url feed)"

definition save_feed_data :: "strftime \<Rightarrow> string \<Rightarrow> string \<Rightarrow> feeds \<Rightarrow> world \<Rightarrow> world" where
  "save_feed_data strftime data_file date_format feed_data w =
     w\<lparr>files := (files w)(data_file \<mapsto>
          concat (map (\<lambda>feed. feed_line strftime date_format feed @ [CHR 0x0A])
                    (dict_values feed_data))),
       trace := trace w @ [Open_write data_file]\<rparr>"

section \<open>main\<close>

text \<open>
  The loop that updates every enabled feed. An exception of \<open>update_feed\<close> is not caught:
  it ends the program before anything is saved or printed.
\<close>

fun update_all :: "(string \<Rightarrow> parsed) \<Rightarrow> feeds \<Rightarrow> error + feeds" where
  "update_all parse [] = Inr []"
| "update_all parse ((k, feed) # rest) =
     (if is_enabled feed then
        (case update_feed parse feed of
           Inl err \<Rightarrow> Inl err
         | Inr feed' \<Rightarrow>
             (case update_all parse rest of
                Inl err \<Rightarrow> Inl err
              | Inr rest' \<Rightarrow> Inr ((k, feed') # rest')))
      else
        (case update_all parse rest of
           Inl err \<Rightarrow> Inl err
         | Inr rest' \<Rightarrow> Inr ((k, feed) # rest')))"

text \<open>
  The loop that prints: the state is what has been printed and the list
  \<open>feeds_without_new_articles\<close>.
\<close>

fun report_loop ::
  "strftime \<Rightarrow> Feed list \<Rightarrow> string list \<times> Feed list \<Rightarrow> string list \<times> Feed list" where
  "report_loop strftime [] st = st"
| "report_loop strftime (feed # rest) (out, without) =
     (if \<not> is_enabled feed then report_loop strftime rest (out, without)
      else if length (entries feed) = 0 then report_loop strftime rest (out, without @ [feed])
      else report_loop strftime rest
             (out @ [Feed_get_info feed] @ map (Entry_get_info strftime) (entries feed) @ [[]],
              without))"

definition report :: "strftime \<Rightarrow> feeds \<Rightarrow> world \<Rightarrow> world" where
  "report strftime feed_data w =
     (let (out, feeds_without_new_articles) =
            report_loop strftime (dict_values feed_data) (stdout w, [])
      in if length feeds_without_new_articles > 0 then
           w\<lparr>stdout := out @ [''Feeds without new articles:'']
                @ map Feed_get_info (filter is_enabled feeds_without_new_articles)\<rparr>
         else w\<lparr>stdout := out\<rparr>)"

text \<open>How the process ends: an exit status, or an exception that nothing caught.\<close>

datatype ending = Exit int | Uncaught error

definition main ::
  "strptime \<Rightarrow> strftime \<Rightarrow> (string \<Rightarrow> parsed) \<Rightarrow> world \<Rightarrow> ending \<times> world" where
  "main strptime strftime parse w =
     (let feed_file = FEED_FILE; data_file = DATA_FILE; date_format = DATE_FORMAT;
          (feeds, w1) = get_url_list feed_file w
      in if length feeds = 0 then
           (Exit 0,
            w1\<lparr>stderr := stderr w1 @ [''No URLs listed in '' @ feed_file @ ''; exiting.'']\<rparr>)
         else
           let (feed_data, w2) = get_feed_data strptime data_file date_format feeds w1
           in case update_all parse feed_data of
                Inl err \<Rightarrow> (Uncaught err, w2)
              | Inr feed_data' \<Rightarrow>
                  (Exit 0,
                   report strftime feed_data'
                     (save_feed_data strftime data_file date_format feed_data' w2)))"

section \<open>Notions used to state the properties of update\_feed\<close>

text \<open>
  The usable published time of an item: the key is present, its value is a 9-tuple, and the
  tuple is a date and time that \<open>datetime\<close> accepts.
\<close>

definition item_date :: "item \<Rightarrow> datetime option" where
  "item_date e =
     (case published_parsed e of
        Some (Some (y, m, d, H, M, S, _)) \<Rightarrow>
          (case datetime_new y m d H M S 0 of Inr pd \<Rightarrow> Some pd | Inl _ \<Rightarrow> None)
      | _ \<Rightarrow> None)"

text \<open>An item the loop can read: the key is absent, or its value is usable.\<close>

definition readable :: "item \<Rightarrow> bool" where
  "readable e \<longleftrightarrow> published_parsed e = None \<or> item_date e \<noteq> None"

text \<open>The entries of the items with a usable published time after \<open>w\<close>, in the order of the input.\<close>

definition new_entries :: "datetime option \<Rightarrow> item list \<Rightarrow> Entry list" where
  "new_entries w es =
     List.map_filter
       (\<lambda>e. case item_date e of
              Some pd \<Rightarrow> if is_newer pd w then Some (entry_of e pd) else None
            | None \<Rightarrow> None) es"

text \<open>The order on watermarks: no watermark is below every watermark.\<close>

definition wm_le :: "datetime option \<Rightarrow> datetime option \<Rightarrow> bool" where
  "wm_le a b =
     (case a of
        None \<Rightarrow> True
      | Some x \<Rightarrow> (case b of None \<Rightarrow> False | Some y \<Rightarrow> instant x \<le> instant y))"

text \<open>One step of the local \<open>newest_pub_date\<close> (line 136).\<close>

definition bump :: "datetime option \<Rightarrow> datetime \<Rightarrow> datetime option" where
  "bump n pd = (if is_newer pd n then Some pd else n)"

text \<open>
  Successive runs on one source. The next run builds the feed anew and seeds it with the
  watermark that the run before left.
\<close>

definition next_run :: "Feed \<Rightarrow> Feed" where
  "next_run feed = (Feed_new (url feed) True)\<lparr>newest_retrieved_date := newest_retrieved_date feed\<rparr>"


section \<open>Notions used to state the properties of the data file\<close>

text \<open>
  The record that one line of the data file holds, in the words of the format
  \<open><url>[ last updated <timestamp>]\<close>: the trimmed URL, and the watermark when the line has
  one that \<open>strptime\<close> reads. A line with an empty URL holds no record.
\<close>

definition line_record :: "strptime \<Rightarrow> string \<Rightarrow> string \<Rightarrow> (string \<times> datetime option) option" where
  "line_record strptime date_format line =
     (case split ''last updated'' 2 line of
        [] \<Rightarrow> None
      | [p] \<Rightarrow> if strip p = [] then None else Some (strip p, None)
      | p # q # _ \<Rightarrow> if strip p = [] then None else Some (strip p, strptime (strip q) date_format))"

text \<open>
  The persisted watermark records of a data file: for each URL the record of the last
  line that names it. A missing file has none.
\<close>

definition persisted :: "strptime \<Rightarrow> string \<Rightarrow> string option \<Rightarrow> string \<Rightarrow> datetime option option" where
  "persisted strptime date_format file =
     (case file of
        None \<Rightarrow> Map.empty
      | Some text \<Rightarrow>
          map_of (rev (List.map_filter (line_record strptime date_format) (split_lines text))))"

text \<open>
  The merge as the specification words it: a configured URL is an enabled source with its
  persisted watermark, if any; a URL that is only persisted is a disabled source with its
  watermark.
\<close>

definition merge :: "string list \<Rightarrow> (string \<Rightarrow> datetime option option) \<Rightarrow> string \<Rightarrow> Feed option" where
  "merge urls recs u =
     (if u \<in> set urls then
        Some ((Feed_new u True)\<lparr>newest_retrieved_date :=
                (case recs u of Some wm \<Rightarrow> wm | None \<Rightarrow> None)\<rparr>)
      else
        (case recs u of
           Some wm \<Rightarrow> Some ((Feed_new u False)\<lparr>newest_retrieved_date := wm\<rparr>)
         | None \<Rightarrow> None))"

text \<open>
  A URL that a line of the data file can carry: not empty, no white space at either end,
  no newline, and no occurrence of the separator.
\<close>

definition storable_url :: "string \<Rightarrow> bool" where
  "storable_url u \<longleftrightarrow>
     u \<noteq> [] \<and> strip u = u \<and> CHR 0x0A \<notin> set u \<and> find_sep ''last updated'' u = None"

text \<open>
  A timestamp that the library writes and reads back: the text has no newline and no
  separator in it, and \<open>strptime\<close> returns the \<open>datetime\<close> it was written from.
\<close>

definition reads_back :: "strftime \<Rightarrow> strptime \<Rightarrow> string \<Rightarrow> datetime \<Rightarrow> bool" where
  "reads_back strftime strptime date_format t \<longleftrightarrow>
     strptime (strip (strftime t date_format)) date_format = Some t
       \<and> CHR 0x0A \<notin> set (strftime t date_format)
       \<and> find_sep ''last updated'' (strftime t date_format) = None"

text \<open>
  A source that the data file can carry under its key: the key is the URL of the source, a
  line can carry the URL, and the library writes and reads back the watermark, if any.
\<close>

definition storable_feed :: "strftime \<Rightarrow> strptime \<Rightarrow> string \<Rightarrow> string \<Rightarrow> Feed \<Rightarrow> bool" where
  "storable_feed strftime strptime date_format k f \<longleftrightarrow>
     url f = k \<and> storable_url k
       \<and> (case newest_retrieved_date f of
            None \<Rightarrow> True
          | Some t \<Rightarrow> reads_back strftime strptime date_format t)"

section \<open>Notions used to state the properties of the run\<close>

text \<open>
  The feed that a line of the data file leaves for the URL \<open>u\<close>: the feed that is there, or
  a new disabled feed, with the watermark of the line.
\<close>

definition seeded :: "feeds \<Rightarrow> string \<Rightarrow> datetime option \<Rightarrow> Feed" where
  "seeded fd u wm =
     (case map_of fd u of Some f \<Rightarrow> f | None \<Rightarrow> Feed_new u False)\<lparr>newest_retrieved_date := wm\<rparr>"

text \<open>What the loop of \<open>main\<close> does to one feed: an enabled feed is updated, a disabled one is kept.\<close>

definition updated :: "(string \<Rightarrow> parsed) \<Rightarrow> Feed \<Rightarrow> Feed \<Rightarrow> bool" where
  "updated parse f f' \<longleftrightarrow> (if is_enabled f then update_feed parse f = Inr f' else f' = f)"


section \<open>A reference instance of the library\<close>

text \<open>
  An instance of \<open>strftime\<close> and \<open>strptime\<close> in the C locale for the directives of the
  two formats of the program, with fields of fixed width. It is the instance on which
  the concrete runs below are evaluated.
\<close>

definition digit_char :: "int \<Rightarrow> char" where
  "digit_char d =
     (if d = 0 then CHR ''0'' else if d = 1 then CHR ''1'' else if d = 2 then CHR ''2''
      else if d = 3 then CHR ''3'' else if d = 4 then CHR ''4'' else if d = 5 then CHR ''5''
      else if d = 6 then CHR ''6'' else if d = 7 then CHR ''7'' else if d = 8 then CHR ''8''
      else CHR ''9'')"

definition pad2 :: "int \<Rightarrow> string" where
  "pad2 n = [digit_char (n div 10 mod 10), digit_char (n mod 10)]"

definition pad4 :: "int \<Rightarrow> string" where
  "pad4 n = [digit_char (n div 1000 mod 10), digit_char (n div 100 mod 10),
             digit_char (n div 10 mod 10), digit_char (n mod 10)]"

definition month_name :: "int \<Rightarrow> string" where
  "month_name m =
     (if 1 \<le> m \<and> m \<le> 12 then
        [''January'', ''February'', ''March'', ''April'', ''May'', ''June'', ''July'',
         ''August'', ''September'', ''October'', ''November'', ''December''] ! nat (m - 1)
      else [])"

definition fmt_offset :: "int \<Rightarrow> string" where
  "fmt_offset off =
     (if off < 0 then ''-'' else ''+'')
       @ pad2 (\<bar>off\<bar> div 3600) @ pad2 (\<bar>off\<bar> div 60 mod 60)
       @ (if \<bar>off\<bar> mod 60 \<noteq> 0 then pad2 (\<bar>off\<bar> mod 60) else [])"

definition directive :: "datetime \<Rightarrow> char \<Rightarrow> string" where
  "directive t c =
     (if c = CHR ''Y'' then pad4 (year t)
      else if c = CHR ''m'' then pad2 (month t)
      else if c = CHR ''d'' then pad2 (day t)
      else if c = CHR ''H'' then pad2 (hour t)
      else if c = CHR ''M'' then pad2 (minute t)
      else if c = CHR ''S'' then pad2 (second t)
      else if c = CHR ''z'' then fmt_offset (utcoffset t)
      else if c = CHR ''B'' then month_name (month t)
      else [CHR ''%'', c])"

fun strftime_c :: "datetime \<Rightarrow> string \<Rightarrow> string" where
  "strftime_c t (c # d # cs) =
     (if c = CHR ''%'' then directive t d @ strftime_c t cs else c # strftime_c t (d # cs))"
| "strftime_c t cs = cs"

definition digit_val :: "char \<Rightarrow> int option" where
  "digit_val c = map_of (zip ''0123456789'' [0, 1, 2, 3, 4, 5, 6, 7, 8, 9]) c"

fun read_num :: "nat \<Rightarrow> int \<Rightarrow> string \<Rightarrow> (int \<times> string) option" where
  "read_num 0 acc s = Some (acc, s)"
| "read_num (Suc n) acc [] = None"
| "read_num (Suc n) acc (c # s) =
     (case digit_val c of None \<Rightarrow> None | Some v \<Rightarrow> read_num n (acc * 10 + v) s)"

definition read_offset :: "string \<Rightarrow> (int \<times> string) option" where
  "read_offset s =
     (case s of
        [] \<Rightarrow> None
      | c # s1 \<Rightarrow>
          if c = CHR ''+'' \<or> c = CHR ''-'' then
            (case read_num 2 0 s1 of
               None \<Rightarrow> None
             | Some (hh, s2) \<Rightarrow>
                 (case read_num 2 0 s2 of
                    None \<Rightarrow> None
                  | Some (mm, s3) \<Rightarrow>
                      if mm > 59 then None
                      else
                        (case read_num 2 0 s3 of
                           None \<Rightarrow>
                             Some ((if c = CHR ''-'' then - 1 else 1) * (hh * 3600 + mm * 60), s3)
                         | Some (ss, s4) \<Rightarrow>
                             if ss > 59 then None
                             else Some ((if c = CHR ''-'' then - 1 else 1)
                                          * (hh * 3600 + mm * 60 + ss), s4))))
          else None)"

definition read_directive :: "char \<Rightarrow> string \<Rightarrow> datetime \<Rightarrow> (datetime \<times> string) option" where
  "read_directive c s t =
     (if c = CHR ''Y'' then map_option (\<lambda>(v, r). (t\<lparr>year := v\<rparr>, r)) (read_num 4 0 s)
      else if c = CHR ''m'' then map_option (\<lambda>(v, r). (t\<lparr>month := v\<rparr>, r)) (read_num 2 0 s)
      else if c = CHR ''d'' then map_option (\<lambda>(v, r). (t\<lparr>day := v\<rparr>, r)) (read_num 2 0 s)
      else if c = CHR ''H'' then map_option (\<lambda>(v, r). (t\<lparr>hour := v\<rparr>, r)) (read_num 2 0 s)
      else if c = CHR ''M'' then map_option (\<lambda>(v, r). (t\<lparr>minute := v\<rparr>, r)) (read_num 2 0 s)
      else if c = CHR ''S'' then map_option (\<lambda>(v, r). (t\<lparr>second := v\<rparr>, r)) (read_num 2 0 s)
      else if c = CHR ''z'' then map_option (\<lambda>(v, r). (t\<lparr>utcoffset := v\<rparr>, r)) (read_offset s)
      else None)"

fun read_fields :: "string \<Rightarrow> string \<Rightarrow> datetime \<Rightarrow> datetime option" where
  "read_fields (c # d # fs) s t =
     (if c = CHR ''%'' then
        (case read_directive d s t of
           None \<Rightarrow> None
         | Some (t', s') \<Rightarrow> read_fields fs s' t')
      else
        (case s of
           [] \<Rightarrow> None
         | x # s' \<Rightarrow> if x = c then read_fields (d # fs) s' t else None))"
| "read_fields fs s t = (if s = fs then Some t else None)"

definition strptime_c :: "string \<Rightarrow> string \<Rightarrow> datetime option" where
  "strptime_c s fmt =
     (case read_fields fmt s
             \<lparr>year = 1900, month = 1, day = 1, hour = 0, minute = 0, second = 0, utcoffset = 0\<rparr> of
        None \<Rightarrow> None
      | Some t \<Rightarrow>
          (case datetime_new (year t) (month t) (day t) (hour t) (minute t) (second t)
                  (utcoffset t) of
             Inl _ \<Rightarrow> None
           | Inr t' \<Rightarrow> Some t'))"

text \<open>
  A \<open>datetime\<close> that the constructor accepts, with an offset of less than a day, as the
  class \<open>timezone\<close> requires.
\<close>

definition valid_datetime :: "datetime \<Rightarrow> bool" where
  "valid_datetime t \<longleftrightarrow>
     datetime_new (year t) (month t) (day t) (hour t) (minute t) (second t) (utcoffset t) = Inr t
       \<and> \<bar>utcoffset t\<bar> < 86400"

text \<open>The characters of a timestamp in \<open>DATE_FORMAT\<close>.\<close>

definition stamp_char :: "char \<Rightarrow> bool" where
  "stamp_char c \<longleftrightarrow> c \<in> set ''0123456789+-T:''"

section \<open>A concrete feed\<close>

text \<open>
  A feed with watermark 2024-01-01 and five items: one without the key, one at the
  watermark, and two with the same published time.
\<close>

definition ex_items :: "item list" where
  "ex_items =
     [\<lparr>published_parsed = Some (Some (2024, 2, 1, 0, 0, 0, 3, 32, 0)),
       link = Some ''http://a/1'', item_title = Some ''one''\<rparr>,
      \<lparr>published_parsed = None, link = Some ''http://a/2'', item_title = None\<rparr>,
      \<lparr>published_parsed = Some (Some (2024, 3, 1, 0, 0, 0, 4, 61, 0)),
       link = None, item_title = Some ''three''\<rparr>,
      \<lparr>published_parsed = Some (Some (2024, 1, 1, 0, 0, 0, 0, 1, 0)),
       link = Some ''http://a/4'', item_title = Some ''four''\<rparr>,
      \<lparr>published_parsed = Some (Some (2024, 3, 1, 0, 0, 0, 4, 61, 0)),
       link = Some ''http://a/5'', item_title = Some ''five''\<rparr>]"

definition ex_parse :: "string \<Rightarrow> parsed" where
  "ex_parse u =
     (if u = ''http://a'' then \<lparr>bozo = False, feed_title = Some ''A'', parsed_entries = ex_items\<rparr>
      else \<lparr>bozo = True, feed_title = None, parsed_entries = []\<rparr>)"

definition ex_date :: "int \<Rightarrow> int \<Rightarrow> int \<Rightarrow> datetime" where
  "ex_date y m d = \<lparr>year = y, month = m, day = d, hour = 0, minute = 0, second = 0, utcoffset = 0\<rparr>"

definition ex_feed :: Feed where
  "ex_feed = (Feed_new ''http://a'' True)\<lparr>newest_retrieved_date := Some (ex_date 2024 1 1)\<rparr>"

definition ex_feed' :: Feed where
  "ex_feed' =
     \<lparr>url = ''http://a'', title = Some ''A'',
      entries =
        [\<lparr>entry_url = ''(URL missing)'', entry_title = ''three'', pub_date = ex_date 2024 3 1\<rparr>,
         \<lparr>entry_url = ''http://a/5'', entry_title = ''five'', pub_date = ex_date 2024 3 1\<rparr>,
         \<lparr>entry_url = ''http://a/1'', entry_title = ''one'', pub_date = ex_date 2024 2 1\<rparr>],
      retrieval_failed = False, newest_retrieved_date = Some (ex_date 2024 3 1),
      is_enabled = True\<rparr>"

section \<open>A concrete run\<close>

text \<open>
  A configuration with three URLs and a data file with four lines, one of them with a
  watermark that does not parse. The fetch of \<open>http://a\<close> gives the concrete feed, every
  other fetch fails.
\<close>

definition ex_lines :: "string list \<Rightarrow> string" where
  "ex_lines ls = concat (map (\<lambda>l. l @ [CHR 0x0A]) ls)"

definition ex_config :: string where
  "ex_config =
     ex_lines [''# my feeds'', ''http://a'', ''  https://example.com/feed  '', [], ''http://b'']"

definition ex_data :: string where
  "ex_data =
     ex_lines [''http://a last updated 2024-01-01T00:00:00+0000'',
               ''https://example.com/feed last updated not-a-date'',
               ''http://b last updated 2024-01-15T08:30:00+0100'',
               ''http://c last updated 2023-12-31T23:00:00-0100'']"


definition ex_files :: "string option \<Rightarrow> string option \<Rightarrow> string \<Rightarrow> string option" where
  "ex_files config data p =
     (if p = FEED_FILE then config else if p = DATA_FILE then data else None)"

definition ex_world :: world where
  "ex_world = \<lparr>files = ex_files (Some ex_config) (Some ex_data),
               trace = [], stdout = [], stderr = []\<rparr>"


definition ex_new_world :: world where
  "ex_new_world = \<lparr>files = ex_files None None, trace = [], stdout = [], stderr = []\<rparr>"

definition ex_urls :: "string list" where
  "ex_urls = [''http://a'', ''https://example.com/feed'', ''http://b'']"

definition ex_time_b :: datetime where
  "ex_time_b = \<lparr>year = 2024, month = 1, day = 15, hour = 8, minute = 30, second = 0,
                utcoffset = 3600\<rparr>"

definition ex_time_c :: datetime where
  "ex_time_c = \<lparr>year = 2023, month = 12, day = 31, hour = 23, minute = 0, second = 0,
                utcoffset = - 3600\<rparr>"

definition ex_b :: Feed where
  "ex_b = (Feed_new ''http://b'' True)\<lparr>newest_retrieved_date := Some ex_time_b\<rparr>"

definition ex_after :: feeds where
  "ex_after =
     [(''http://a'', ex_feed'),
      (''https://example.com/feed'',
       (Feed_new ''https://example.com/feed'' True)\<lparr>retrieval_failed := True\<rparr>),
      (''http://b'', ex_b\<lparr>retrieval_failed := True\<rparr>),
      (''http://c'', (Feed_new ''http://c'' False)\<lparr>newest_retrieved_date := Some ex_time_c\<rparr>)]"





text \<open>A fetch that gives one item with a published time and one whose date did not parse.\<close>

definition ex_unparsed :: "string \<Rightarrow> parsed" where
  "ex_unparsed u =
     \<lparr>bozo = False, feed_title = None,
      parsed_entries =
        [\<lparr>published_parsed = Some (Some (2024, 3, 1, 0, 0, 0, 4, 61, 0)),
          link = Some ''http://a/1'', item_title = Some ''one''\<rparr>,
         \<lparr>published_parsed = Some None, link = Some ''http://a/2'',
          item_title = Some ''two''\<rparr>]\<rparr>"

section \<open>The loop of update\_feed\<close>

lemma new_entries_Nil [simp]: "new_entries w [] = []"
  by (simp add: new_entries_def map_filter_simps)

lemma new_entries_Cons:
  "new_entries w (e # es) =
     (case item_date e of
        Some pd \<Rightarrow> if is_newer pd w then entry_of e pd # new_entries w es else new_entries w es
      | None \<Rightarrow> new_entries w es)"
  by (simp add: new_entries_def map_filter_simps split: option.splits)

lemma update_entries_step:
  "readable e \<Longrightarrow>
   update_entries w (e # es) (ents, n) =
     (case item_date e of
        None \<Rightarrow> update_entries w es (ents, n)
      | Some pd \<Rightarrow>
          if is_newer pd w then update_entries w es (ents @ [entry_of e pd], bump n pd)
          else update_entries w es (ents, n))"
  by (auto simp: readable_def item_date_def bump_def split: option.splits sum.splits prod.splits)

lemma update_entries_unreadable:
  "\<not> readable e \<Longrightarrow> \<exists>err. update_entries w (e # es) (ents, n) = Inl err"
  by (auto simp: readable_def item_date_def split: option.splits sum.splits prod.splits)

declare update_entries.simps(2) [simp del]

lemma update_entries_Inr:
  "update_entries w es (ents, n) = Inr (ents', n') \<Longrightarrow>
     ents' = ents @ new_entries w es \<and> n' = foldl bump n (map pub_date (new_entries w es))"
proof (induction es arbitrary: ents n)
  case Nil
  then show ?case by simp
next
  case (Cons e es)
  have r: "readable e"
  proof (rule ccontr)
    assume "\<not> readable e"
    from update_entries_unreadable [OF this, of w es ents n] Cons.prems show False by auto
  qed
  show ?case
  proof (cases "item_date e")
    case None
    with Cons r show ?thesis by (simp add: update_entries_step new_entries_Cons)
  next
    case (Some pd)
    show ?thesis
    proof (cases "is_newer pd w")
      case True
      with Cons.prems r Some
      have "update_entries w es (ents @ [entry_of e pd], bump n pd) = Inr (ents', n')"
        by (simp add: update_entries_step)
      from Cons.IH [OF this] Some True show ?thesis
        by (simp add: new_entries_Cons entry_of_def)
    next
      case False
      with Cons r Some show ?thesis by (simp add: update_entries_step new_entries_Cons)
    qed
  qed
qed

lemma update_entries_total:
  "(\<exists>r. update_entries w es st = Inr r) \<longleftrightarrow> (\<forall>e\<in>set es. readable e)"
proof (induction es arbitrary: st)
  case Nil
  then show ?case by simp
next
  case (Cons e es)
  obtain ents n where st: "st = (ents, n)" by (cases st)
  show ?case
  proof (cases "readable e")
    case True
    then show ?thesis unfolding st using Cons.IH
      by (simp add: update_entries_step split: option.splits)
  next
    case False
    then show ?thesis unfolding st using update_entries_unreadable [of e w es ents n]
      by auto
  qed
qed


lemma wm_le_refl [simp]: "wm_le a a"
  by (simp add: wm_le_def split: option.splits)











lemma set_new_entries:
  "set (new_entries w es) =
     {entry_of e pd | e pd. e \<in> set es \<and> item_date e = Some pd \<and> is_newer pd w}"
  by (induction es) (auto simp: new_entries_Cons split: option.splits if_splits)

lemma update_feed_bozo:
  "bozo (parse (url feed)) \<Longrightarrow> update_feed parse feed = Inr (feed\<lparr>retrieval_failed := True\<rparr>)"
  by (simp add: update_feed_def)

lemma update_feed_fetched:
  assumes "\<not> bozo (parse (url feed))" and "update_feed parse feed = Inr feed'"
  shows "feed' = feed
           \<lparr>title := (case feed_title (parse (url feed)) of Some t \<Rightarrow> Some t | None \<Rightarrow> title feed),
            entries := sort_reverse (\<lambda>a. instant (pub_date a))
               (entries feed
                  @ new_entries (newest_retrieved_date feed) (parsed_entries (parse (url feed)))),
            newest_retrieved_date := foldl bump (newest_retrieved_date feed)
               (map pub_date
                  (new_entries (newest_retrieved_date feed) (parsed_entries (parse (url feed)))))\<rparr>"
  using assms
  by (auto simp: update_feed_def Let_def split: option.splits sum.splits prod.splits
           dest!: update_entries_Inr)

lemma update_feed_total:
  "(\<exists>feed'. update_feed parse feed = Inr feed') \<longleftrightarrow>
     bozo (parse (url feed)) \<or> (\<forall>e\<in>set (parsed_entries (parse (url feed))). readable e)"
proof (cases "bozo (parse (url feed))")
  case True
  then show ?thesis by (simp add: update_feed_def)
next
  case False
  let ?w = "newest_retrieved_date feed"
  have "(\<exists>feed'. update_feed parse feed = Inr feed') \<longleftrightarrow>
        (\<exists>r. update_entries ?w (parsed_entries (parse (url feed))) (entries feed, ?w) = Inr r)"
    using False
    by (auto simp: update_feed_def Let_def split: option.splits sum.splits prod.splits)
  with False update_entries_total [of ?w "parsed_entries (parse (url feed))" "(entries feed, ?w)"]
  show ?thesis by auto
qed

lemma set_sort_reverse [simp]: "set (sort_reverse k xs) = set xs"
  by (simp add: sort_reverse_def)

lemma mset_sort_reverse [simp]: "mset (sort_reverse k xs) = mset xs"
  by (simp add: sort_reverse_def)

lemma sorted_sort_reverse: "sorted_wrt (\<lambda>a b. k a \<ge> k b) (sort_reverse k xs)"
proof -
  have "sorted (map k (sort_key k (rev xs)))" by simp
  then have "sorted_wrt (\<lambda>a b. k a \<le> k b) (sort_key k (rev xs))"
    by (simp add: sorted_map)
  then show ?thesis
    by (simp add: sort_reverse_def sorted_wrt_rev)
qed

lemma sort_reverse_stable:
  "filter (\<lambda>a. k a = t) (sort_reverse k xs) = filter (\<lambda>a. k a = t) xs"
  by (simp add: sort_reverse_def rev_filter [symmetric] sort_key_stable)

section \<open>Properties of update\_feed\<close>

lemma ex_update: "update_feed ex_parse ex_feed = Inr ex_feed'"
  by code_simp



lemma update_feed_new_items:
  assumes "update_feed parse feed = Inr feed'" and "\<not> bozo (parse (url feed))"
    and "entries feed = []"
  shows "mset (entries feed') =
           mset (new_entries (newest_retrieved_date feed) (parsed_entries (parse (url feed))))"
  by (subst update_feed_fetched [OF assms(2) assms(1)]) (simp add: assms(3))

text \<open>
  Claim C1. An item is among the new items exactly when it has a usable published time
  after the watermark, and an item without a usable published time is left out and changes
  nothing. For the items the loop can read this is \<open>update_feed_new_items\<close> with
  \<open>set_new_entries\<close>. An item whose key \<open>published_parsed\<close> holds \<open>None\<close> has no usable
  published time, and it is not left out: the test of line 124 lets it through, the
  unpacking of line 127 raises \<open>TypeError\<close>, and the run ends there, with nothing saved
  and nothing printed.
\<close>

theorem update_feed_unparsed_date_raises:
  "update_feed ex_unparsed (Feed_new ''http://a'' True) = Inl TypeError
   \<and> fst (main strptime_c strftime_c ex_unparsed ex_world) = Uncaught TypeError
   \<and> files (snd (main strptime_c strftime_c ex_unparsed ex_world)) DATA_FILE =
       files ex_world DATA_FILE
   \<and> stdout (snd (main strptime_c strftime_c ex_unparsed ex_world)) = []"
  by code_simp



lemma next_run_watermark [simp]:
  "newest_retrieved_date (next_run feed) = newest_retrieved_date feed"
  by (simp add: next_run_def)



text \<open>
  Claim C5. The new items are sorted by published time, latest first, and the new items
  with one published time stand in the order they had in the input.
\<close>

theorem new_items_sorted_newest_first:
  assumes "update_feed parse feed = Inr feed'" and "\<not> bozo (parse (url feed))"
    and "entries feed = []"
  shows "sorted_wrt (\<lambda>a b. instant (pub_date a) \<ge> instant (pub_date b)) (entries feed')
         \<and> (\<forall>t. filter (\<lambda>a. instant (pub_date a) = t) (entries feed') =
                 filter (\<lambda>a. instant (pub_date a) = t)
                   (new_entries (newest_retrieved_date feed)
                      (parsed_entries (parse (url feed)))))"
proof -
  note f = update_feed_fetched [OF assms(2) assms(1)]
  have e: "entries feed' =
             sort_reverse (\<lambda>a. instant (pub_date a))
               (new_entries (newest_retrieved_date feed) (parsed_entries (parse (url feed))))"
    by (subst f) (simp add: assms(3))
  show ?thesis unfolding e
    by (simp add: sorted_sort_reverse sort_reverse_stable)
qed

text \<open>The concrete feed: the two items of 2024-03-01 keep their order, ahead of 2024-02-01.\<close>

theorem new_items_sorted_newest_first_witness:
  "update_feed ex_parse ex_feed = Inr ex_feed' \<and> \<not> bozo (ex_parse (url ex_feed))
   \<and> entries ex_feed = []
   \<and> map entry_title (entries ex_feed') = [''three'', ''five'', ''one'']
   \<and> sorted_wrt (\<lambda>a b. instant (pub_date a) \<ge> instant (pub_date b)) (entries ex_feed')
   \<and> filter (\<lambda>a. instant (pub_date a) = instant (ex_date 2024 3 1)) (entries ex_feed') =
       filter (\<lambda>a. instant (pub_date a) = instant (ex_date 2024 3 1))
         (new_entries (newest_retrieved_date ex_feed) (parsed_entries (ex_parse (url ex_feed))))"
proof -
  have h1: "update_feed ex_parse ex_feed = Inr ex_feed'" by (rule ex_update)
  have h2: "\<not> bozo (ex_parse (url ex_feed))" by (simp add: ex_parse_def ex_feed_def Feed_new_def)
  have h3: "entries ex_feed = []" by (simp add: ex_feed_def Feed_new_def)
  have h4: "map entry_title (entries ex_feed') = [''three'', ''five'', ''one'']"
    by (simp add: ex_feed'_def)
  from new_items_sorted_newest_first [OF h1 h2 h3] h1 h2 h3 h4 show ?thesis by blast
qed

section \<open>Properties of the dictionary\<close>

lemma map_of_dict_setitem: "map_of (dict_setitem d k v) = (map_of d)(k \<mapsto> v)"
  by (induction d) (auto simp: fun_eq_iff)

lemma keys_dict_setitem:
  "map fst (dict_setitem d k v) = (if k \<in> set (map fst d) then map fst d else map fst d @ [k])"
proof (induction d)
  case Nil
  show ?case by simp
next
  case (Cons p d)
  obtain k' v' where p: "p = (k', v')" by (cases p)
  show ?case
  proof (cases "k' = k")
    case True
    then show ?thesis by (simp add: p)
  next
    case False
    with Cons show ?thesis by (simp add: p)
  qed
qed

lemma distinct_dict_setitem:
  "distinct (map fst d) \<Longrightarrow> distinct (map fst (dict_setitem d k v))"
  by (simp add: keys_dict_setitem)

lemma keys_dict_modify [simp]: "map fst (dict_modify d k f) = map fst d"
  by (induction d) (auto simp: dict_modify_def)

lemma map_of_dict_modify:
  "map_of (dict_modify d k f) k' = (if k' = k then map_option f (map_of d k) else map_of d k')"
  by (induction d) (auto simp: dict_modify_def)

lemma dict_contains_iff: "dict_contains d k \<longleftrightarrow> map_of d k \<noteq> None"
  by (simp add: dict_contains_def map_of_eq_None_iff)

lemma foldl_configured:
  "map_of (foldl (\<lambda>d u. dict_setitem d u (Feed_new u True)) d0 urls) u =
     (if u \<in> set urls then Some (Feed_new u True) else map_of d0 u)"
  by (induction urls arbitrary: d0) (auto simp: map_of_dict_setitem)

lemma foldl_configured_distinct:
  "distinct (map fst d0) \<Longrightarrow>
     distinct (map fst (foldl (\<lambda>d u. dict_setitem d u (Feed_new u True)) d0 urls))"
  by (induction urls arbitrary: d0) (auto simp: distinct_dict_setitem)

section \<open>Properties of get\_feed\_data\<close>

lemma load_line_record:
  "load_line strptime date_format fd line =
     (case line_record strptime date_format line of
        None \<Rightarrow> fd
      | Some (u, wm) \<Rightarrow>
          dict_modify (if \<not> dict_contains fd u then dict_setitem fd u (Feed_new u False) else fd)
            u (\<lambda>f. f\<lparr>newest_retrieved_date := wm\<rparr>))"
proof (cases "split ''last updated'' 2 line")
  case Nil
  then show ?thesis by (simp add: load_line_def line_record_def)
next
  case (Cons p ps)
  then show ?thesis
    by (cases ps) (simp_all add: load_line_def line_record_def Let_def)
qed

lemma map_of_load_line:
  "map_of (load_line strptime date_format fd line) k =
     (case line_record strptime date_format line of
        None \<Rightarrow> map_of fd k
      | Some (u, wm) \<Rightarrow> if k = u then Some (seeded fd u wm) else map_of fd k)"
  by (auto simp: load_line_record map_of_dict_modify map_of_dict_setitem dict_contains_iff
        seeded_def split: option.splits)

lemma distinct_load_line:
  "distinct (map fst fd) \<Longrightarrow> distinct (map fst (load_line strptime date_format fd line))"
  by (auto simp: load_line_record distinct_dict_setitem split: option.splits)

lemma seeded_twice:
  "seeded (load_line strptime date_format fd line) k wm' = seeded fd k wm'"
  by (auto simp: seeded_def map_of_load_line split: option.splits)

lemma map_of_load_lines:
  "map_of (foldl (load_line strptime date_format) fd ls) k =
     (case map_of (rev (List.map_filter (line_record strptime date_format) ls)) k of
        None \<Rightarrow> map_of fd k
      | Some wm \<Rightarrow> Some (seeded fd k wm))"
proof (induction ls arbitrary: fd)
  case Nil
  show ?case by (simp add: map_filter_simps)
next
  case (Cons l ls)
  show ?case
  proof (cases "line_record strptime date_format l")
    case None
    then show ?thesis
      by (simp add: Cons.IH map_filter_simps map_of_load_line seeded_twice split: option.splits)
  next
    case (Some r)
    obtain u wm where r: "r = (u, wm)" by (cases r)
    show ?thesis
      unfolding foldl_Cons Cons.IH
      by (simp add: Some r map_filter_simps map_of_append map_add_def map_of_load_line
            seeded_twice split: option.splits)
  qed
qed

lemma distinct_load_lines:
  "distinct (map fst fd) \<Longrightarrow> distinct (map fst (foldl (load_line strptime date_format) fd ls))"
  by (induction ls arbitrary: fd) (auto simp: distinct_load_line)

lemma Feed_new_no_watermark [simp]:
  "(Feed_new u en)\<lparr>newest_retrieved_date := None\<rparr> = Feed_new u en"
  by (simp add: Feed_new_def)

lemma map_of_get_feed_data:
  "map_of (fst (get_feed_data strptime data_file date_format urls w)) =
     merge urls (persisted strptime date_format (files w data_file))"
proof (rule ext)
  fix u
  show "map_of (fst (get_feed_data strptime data_file date_format urls w)) u =
          merge urls (persisted strptime date_format (files w data_file)) u"
  proof (cases "files w data_file")
    case None
    then show ?thesis
      by (simp add: get_feed_data_def Let_def foldl_configured merge_def persisted_def)
  next
    case (Some content)
    then show ?thesis
      by (simp add: get_feed_data_def Let_def foldl_configured merge_def persisted_def
            map_of_load_lines seeded_def split: option.splits)
  qed
qed

lemma distinct_get_feed_data:
  "distinct (map fst (fst (get_feed_data strptime data_file date_format urls w)))"
  by (cases "files w data_file")
     (simp_all add: get_feed_data_def Let_def foldl_configured_distinct distinct_load_lines)

lemma dom_merge: "dom (merge urls recs) = set urls \<union> dom recs"
  by (auto simp: merge_def dom_def split: if_splits option.splits)

text \<open>
  Claim C8. The dictionary that \<open>get_feed_data\<close> returns is the merge of the configured URLs
  with the persisted records: its keys are the configured URLs together with the URLs of the
  data file, each once; a configured URL is an enabled feed with its persisted watermark, if
  any; a URL that is only in the data file is a disabled feed with its persisted watermark.
\<close>

theorem merge_of_configured_and_persisted:
  "map_of (fst (get_feed_data strptime data_file date_format urls w)) =
     merge urls (persisted strptime date_format (files w data_file))
   \<and> set (map fst (fst (get_feed_data strptime data_file date_format urls w))) =
       set urls \<union> dom (persisted strptime date_format (files w data_file))
   \<and> distinct (map fst (fst (get_feed_data strptime data_file date_format urls w)))"
proof -
  let ?fd = "fst (get_feed_data strptime data_file date_format urls w)"
  have "set (map fst ?fd) = dom (map_of ?fd)"
    by (simp add: dom_map_of_conv_image_fst)
  then show ?thesis
    by (simp add: map_of_get_feed_data dom_merge distinct_get_feed_data)
qed

lemma map_filter_append:
  "List.map_filter f (xs @ ys) = List.map_filter f xs @ List.map_filter f ys"
  by (simp add: List.map_filter_def)




section \<open>Properties of the strings\<close>

lemma find_sep_char_None: "c \<notin> set s \<Longrightarrow> find_sep [c] s = None"
  by (induction s) auto

lemma find_sep_char: "c \<notin> set l \<Longrightarrow> find_sep [c] (l @ c # rest) = Some (l, rest)"
  by (induction l) auto

lemma split_lines_concat:
  assumes "\<forall>l\<in>set ls. c \<notin> set l" and "length ls \<le> n"
  shows "split [c] n (concat (map (\<lambda>l. l @ [c]) ls)) = ls @ [[]]"
  using assms
proof (induction ls arbitrary: n)
  case Nil
  then show ?case by (cases n) simp_all
next
  case (Cons l ls)
  then obtain m where n: "n = Suc m" by (cases n) auto
  with Cons.prems have "length ls \<le> m" by simp
  with Cons have "split [c] m (concat (map (\<lambda>l. l @ [c]) ls)) = ls @ [[]]" by simp
  moreover have "find_sep [c] (l @ c # concat (map (\<lambda>l. l @ [c]) ls))
                   = Some (l, concat (map (\<lambda>l. l @ [c]) ls))"
    using Cons.prems by (simp add: find_sep_char)
  ultimately show ?case by (simp add: n)
qed

lemma length_concat_lines: "length ls \<le> length (concat (map (\<lambda>l. l @ [c]) ls))"
  by (induction ls) auto

lemma split_lines_saved:
  "\<forall>l\<in>set ls. CHR 0x0A \<notin> set l \<Longrightarrow>
     split_lines (concat (map (\<lambda>l. l @ [CHR 0x0A]) ls)) = ls @ [[]]"
  unfolding split_lines_def by (rule split_lines_concat) (simp_all add: length_concat_lines)

lemma strip_space_Cons: "isspace c \<Longrightarrow> strip (c # s) = strip s"
  by (simp add: strip_def)

lemma strip_Nil [simp]: "strip [] = []"
  by (simp add: strip_def)

lemma stripped_ends:
  assumes "strip u = u" and "u \<noteq> []"
  shows "\<not> isspace (hd u)" and "\<not> isspace (last u)"
proof -
  have len: "length (strip u) \<le> length (dropWhile isspace u)"
    unfolding strip_def
    using length_dropWhile_le [of isspace "rev (dropWhile isspace u)"] by simp
  show "\<not> isspace (hd u)"
  proof
    assume "isspace (hd u)"
    with assms(2) have "length (dropWhile isspace u) < length u"
      by (cases u) (simp_all add: length_dropWhile_le le_imp_less_Suc)
    with len assms(1) show False by simp
  qed
  then have d: "dropWhile isspace u = u" using assms(2) by (cases u) simp_all
  show "\<not> isspace (last u)"
  proof
    assume "isspace (last u)"
    with assms(2) have "length (dropWhile isspace (rev u)) < length (rev u)"
      by (cases "rev u") (simp_all add: length_dropWhile_le le_imp_less_Suc last_rev hd_rev)
    with assms(1) d show False
      unfolding strip_def by (metis length_rev less_irrefl)
  qed
qed

lemma strip_snoc_space:
  assumes "strip u = u" and "u \<noteq> []" and "isspace c"
  shows "strip (u @ [c]) = u"
proof -
  from stripped_ends [OF assms(1,2)] have h: "\<not> isspace (hd u)" and l: "\<not> isspace (last u)" .
  from h assms(2) have "dropWhile isspace (u @ [c]) = u @ [c]" by (cases u) simp_all
  moreover from l assms(2) have "dropWhile isspace (rev u) = rev u"
    by (cases "rev u") (simp_all add: hd_rev [symmetric])
  ultimately show ?thesis using assms(3) by (simp add: strip_def)
qed

lemma find_sep_None_Cons:
  "find_sep sep (c # cs) = None \<longleftrightarrow> \<not> prefix sep (c # cs) \<and> find_sep sep cs = None"
  by simp

lemma no_straddle:
  assumes "\<not> prefix ''last updated'' u"
  shows "\<not> prefix ''last updated'' (u @ CHR '' '' # ''last updated'' @ r)"
proof
  define sep :: string where "sep = ''last updated''"
  assume "prefix ''last updated'' (u @ CHR '' '' # ''last updated'' @ r)"
  then have "prefix sep (u @ CHR '' '' # sep @ r)" by (simp add: sep_def)
  moreover from assms have "\<not> prefix sep u" by (simp add: sep_def)
  ultimately obtain us where us: "sep = u @ us" and p: "prefix us (CHR '' '' # sep @ r)"
    unfolding prefix_append by blast
  from us \<open>\<not> prefix sep u\<close> have "us \<noteq> []" by auto
  with p obtain us' where us': "us = CHR '' '' # us'" and p': "prefix us' (sep @ r)"
    by (cases us) auto
  from us us' have "''last updated'' = u @ CHR '' '' # us'" by (simp add: sep_def)
  then have "us' = ''updated''"
    by (auto simp: Cons_eq_append_conv)
  with p' show False by (simp add: sep_def)
qed

lemma find_sep_separator:
  assumes "find_sep ''last updated'' u = None"
  shows "find_sep ''last updated'' (u @ CHR '' '' # ''last updated'' @ r) = Some (u @ '' '', r)"
  using assms
proof (induction u)
  case Nil
  show ?case by simp
next
  case (Cons c u)
  from Cons.prems have np: "\<not> prefix ''last updated'' (c # u)"
    and n: "find_sep ''last updated'' u = None"
    by (simp_all split: if_splits)
  from no_straddle [OF np, of r]
  have "\<not> prefix ''last updated'' ((c # u) @ CHR '' '' # ''last updated'' @ r)" .
  with Cons.IH [OF n] show ?case by simp
qed

lemma find_sep_space_Cons:
  "find_sep ''last updated'' s = None \<Longrightarrow> find_sep ''last updated'' (CHR '' '' # s) = None"
  by simp

lemma isspace_space [simp]: "isspace CHR '' ''"
  by (simp add: isspace_def)

lemma line_record_feed_line:
  assumes "storable_url (url f)"
    and "\<forall>t. newest_retrieved_date f = Some t \<longrightarrow> reads_back strftime strptime date_format t"
  shows "line_record strptime date_format (feed_line strftime date_format f) =
           Some (url f, newest_retrieved_date f)"
proof (cases "newest_retrieved_date f")
  case None
  with assms(1) show ?thesis
    by (simp add: feed_line_def line_record_def storable_url_def numeral_2_eq_2)
next
  case (Some t)
  let ?ts = "strftime t date_format"
  from assms(2) Some have rb: "reads_back strftime strptime date_format t" by simp
  from assms(1) have u: "url f \<noteq> []" "strip (url f) = url f"
    "find_sep ''last updated'' (url f) = None"
    by (simp_all add: storable_url_def)
  have line: "feed_line strftime date_format f
                = url f @ CHR '' '' # ''last updated'' @ (CHR '' '' # ?ts)"
    by (simp add: feed_line_def Some)
  have 1: "find_sep ''last updated'' (feed_line strftime date_format f)
             = Some (url f @ '' '', CHR '' '' # ?ts)"
    unfolding line by (rule find_sep_separator [OF u(3)])
  have 2: "find_sep ''last updated'' (CHR '' '' # ?ts) = None"
    using rb by (simp add: reads_back_def)
  have 3: "find_sep ''last updated'' ?ts = None"
    using rb by (simp add: reads_back_def)
  have parts: "split ''last updated'' 2 (feed_line strftime date_format f)
                 = [url f @ '' '', CHR '' '' # ?ts]"
    by (simp add: numeral_2_eq_2 1 3)
  have "strip (url f @ '' '') = url f"
    by (rule strip_snoc_space [OF u(2) u(1)]) simp
  moreover have "strptime (strip (CHR '' '' # ?ts)) date_format = Some t"
    using rb by (simp add: strip_space_Cons reads_back_def)
  ultimately show ?thesis using u(1)
    by (simp add: line_record_def parts Some)
qed

lemma line_record_empty [simp]: "line_record strptime date_format [] = None"
  by (simp add: line_record_def numeral_2_eq_2)

lemma feed_line_no_newline:
  assumes "storable_url (url f)"
    and "\<forall>t. newest_retrieved_date f = Some t \<longrightarrow> reads_back strftime strptime date_format t"
  shows "CHR 0x0A \<notin> set (feed_line strftime date_format f)"
  using assms
  by (auto simp: feed_line_def storable_url_def reads_back_def split: option.splits)

lemma map_filter_all_Some:
  "\<forall>x\<in>set xs. f x = Some (g x) \<Longrightarrow> List.map_filter f xs = map g xs"
  by (induction xs) (simp_all add: map_filter_simps)

lemma saved_text:
  "files (save_feed_data strftime data_file date_format fd w) data_file =
     Some (concat (map (\<lambda>l. l @ [CHR 0x0A]) (map (feed_line strftime date_format) (map snd fd))))"
  by (simp add: save_feed_data_def dict_values_def comp_def)

lemma persisted_saved:
  assumes "\<forall>(k, f)\<in>set fd. url f = k \<and> storable_url k \<and>
             (\<forall>t. newest_retrieved_date f = Some t \<longrightarrow> reads_back strftime strptime date_format t)"
  shows "persisted strptime date_format
           (files (save_feed_data strftime data_file date_format fd w) data_file) =
         map_of (rev (map (\<lambda>(k, f). (k, newest_retrieved_date f)) fd))"
proof -
  let ?ls = "map (feed_line strftime date_format) (map snd fd)"
  have nl: "\<forall>l\<in>set ?ls. CHR 0x0A \<notin> set l"
  proof
    fix l assume "l \<in> set ?ls"
    then obtain k f where kf: "(k, f) \<in> set fd" and l: "l = feed_line strftime date_format f"
      by auto
    from assms kf have s: "storable_url (url f)"
      and r: "\<forall>t. newest_retrieved_date f = Some t \<longrightarrow> reads_back strftime strptime date_format t"
      by auto
    from feed_line_no_newline [OF s r] l show "CHR 0x0A \<notin> set l" by simp
  qed
  have recs: "List.map_filter (line_record strptime date_format) ?ls =
                map (\<lambda>(k, f). (k, newest_retrieved_date f)) fd"
  proof -
    have "\<forall>p\<in>set fd. line_record strptime date_format (feed_line strftime date_format (snd p))
             = Some (fst p, newest_retrieved_date (snd p))"
    proof
      fix p assume p: "p \<in> set fd"
      obtain k f where kf: "p = (k, f)" by (cases p)
      from assms p kf have u: "url f = k" and s: "storable_url (url f)"
        and r: "\<forall>t. newest_retrieved_date f = Some t \<longrightarrow> reads_back strftime strptime date_format t"
        by auto
      from line_record_feed_line [OF s r] u kf
      show "line_record strptime date_format (feed_line strftime date_format (snd p))
              = Some (fst p, newest_retrieved_date (snd p))" by simp
    qed
    then have "List.map_filter
                 (\<lambda>p. line_record strptime date_format (feed_line strftime date_format (snd p))) fd
               = map (\<lambda>p. (fst p, newest_retrieved_date (snd p))) fd"
      by (rule map_filter_all_Some)
    moreover have "List.map_filter (line_record strptime date_format) ?ls =
                   List.map_filter
                     (\<lambda>p. line_record strptime date_format (feed_line strftime date_format (snd p))) fd"
      by (simp add: List.map_filter_def comp_def filter_map)
    ultimately show ?thesis by (simp add: case_prod_beta)
  qed
  have "persisted strptime date_format
           (files (save_feed_data strftime data_file date_format fd w) data_file) =
        map_of (rev (List.map_filter (line_record strptime date_format) (?ls @ [[]])))"
    by (simp only: persisted_def saved_text option.case split_lines_saved [OF nl])
  also have "List.map_filter (line_record strptime date_format) (?ls @ [[]]) =
             map (\<lambda>(k, f). (k, newest_retrieved_date f)) fd"
    by (simp only: map_filter_append recs) (simp add: map_filter_simps)
  finally show ?thesis .
qed

lemma loaded_watermark_of_saved:
  assumes "files w data_file = files (save_feed_data strftime data_file date_format fd w0) data_file"
    and "distinct (map fst fd)"
    and "\<forall>(k, f)\<in>set fd. storable_feed strftime strptime date_format k f"
    and "(k, f) \<in> set fd"
  shows "\<exists>f'. map_of (fst (get_feed_data strptime data_file date_format urls w)) k = Some f'
              \<and> newest_retrieved_date f' = newest_retrieved_date f"
proof -
  have old: "\<forall>(k, f)\<in>set fd. url f = k \<and> storable_url k \<and>
           (\<forall>t. newest_retrieved_date f = Some t \<longrightarrow> reads_back strftime strptime date_format t)"
    using assms(3) by (auto simp: storable_feed_def)
  let ?recs = "map (\<lambda>(k, f). (k, newest_retrieved_date f)) fd"
  have "map fst (rev ?recs) = rev (map fst fd)"
    by (simp add: rev_map case_prod_beta comp_def)
  with assms(2) have d: "distinct (map fst (rev ?recs))" by simp
  have "(k, newest_retrieved_date f) \<in> set (rev ?recs)" using assms(4) by force
  with d have "map_of (rev ?recs) k = Some (newest_retrieved_date f)"
    by (simp only: map_of_eq_Some_iff)
  then show ?thesis
    by (simp add: map_of_get_feed_data assms(1) persisted_saved [OF old] merge_def)
qed


section \<open>Properties of the loop of main\<close>

lemma update_all_Cons:
  "update_all parse ((k, f) # rest) = Inr fd' \<longleftrightarrow>
     (\<exists>f' rest'. fd' = (k, f') # rest' \<and> updated parse f f' \<and> update_all parse rest = Inr rest')"
  by (auto simp: updated_def split: sum.splits)



lemma update_all_set:
  "update_all parse fd = Inr fd' \<Longrightarrow> (k, f') \<in> set fd' \<Longrightarrow>
     \<exists>f. (k, f) \<in> set fd \<and> updated parse f f'"
proof (induction fd arbitrary: fd')
  case Nil
  then show ?case by simp
next
  case (Cons p fd)
  obtain k0 f0 where p: "p = (k0, f0)" by (cases p)
  from Cons.prems(1) obtain f0' rest' where fd': "fd' = (k0, f0') # rest'"
    and u: "updated parse f0 f0'" and r: "update_all parse fd = Inr rest'"
    unfolding p update_all_Cons by blast
  from Cons.prems(2) fd' have "(k, f') = (k0, f0') \<or> (k, f') \<in> set rest'" by simp
  then show ?case
  proof
    assume "(k, f') = (k0, f0')"
    with u show ?thesis by (auto simp: p)
  next
    assume "(k, f') \<in> set rest'"
    from Cons.IH [OF r this] show ?thesis by (auto simp: p)
  qed
qed


lemma get_feed_data_lookup:
  assumes "map_of (fst (get_feed_data strptime data_file date_format urls w)) k = Some f"
  shows "\<exists>wm. f = (Feed_new k (k \<in> set urls))\<lparr>newest_retrieved_date := wm\<rparr>"
  using assms
proof (cases "k \<in> set urls")
  case True
  with assms show ?thesis
    by (auto simp: map_of_get_feed_data merge_def simp del: Feed_new_no_watermark)
next
  case False
  with assms show ?thesis
    by (cases "persisted strptime date_format (files w data_file) k")
       (auto simp: map_of_get_feed_data merge_def simp del: Feed_new_no_watermark)
qed

lemma get_feed_data_member:
  assumes "(k, f) \<in> set (fst (get_feed_data strptime data_file date_format urls w))"
  shows "\<exists>wm. f = (Feed_new k (k \<in> set urls))\<lparr>newest_retrieved_date := wm\<rparr>"
proof -
  from assms distinct_get_feed_data
  have "map_of (fst (get_feed_data strptime data_file date_format urls w)) k = Some f"
    by (simp add: map_of_eq_Some_iff)
  then show ?thesis by (rule get_feed_data_lookup)
qed

lemma paths_differ [simp]: "FEED_FILE \<noteq> DATA_FILE" "DATA_FILE \<noteq> FEED_FILE"
  by (simp_all add: FEED_FILE_def DATA_FILE_def)

text \<open>
  Claim C9. When the configuration gives no URL, the program prints one line on the error
  stream and exits with status 0; it prints nothing on the output stream, the data file is
  as before, and the only files it opens or creates are the configuration file.
\<close>

theorem nothing_configured_exits_cleanly:
  assumes "fst (get_url_list FEED_FILE w) = []"
  shows "fst (main strptime strftime parse w) = Exit 0
         \<and> stderr (snd (main strptime strftime parse w)) =
             stderr w @ [''No URLs listed in '' @ FEED_FILE @ ''; exiting.'']
         \<and> stdout (snd (main strptime strftime parse w)) = stdout w
         \<and> files (snd (main strptime strftime parse w)) DATA_FILE = files w DATA_FILE
         \<and> (\<exists>ops. trace (snd (main strptime strftime parse w)) = trace w @ ops
                \<and> set ops \<subseteq> {Open_read FEED_FILE, Touch FEED_FILE})"
proof (cases "files w FEED_FILE")
  case None
  then show ?thesis
    by (simp add: main_def get_url_list_def Let_def)
next
  case (Some content)
  with assms show ?thesis
    by (simp add: main_def get_url_list_def Let_def)
qed








lemma Feed_get_info_unflagged:
  "retrieval_failed f \<longrightarrow> title f = None \<Longrightarrow>
     Feed_get_info (f\<lparr>retrieval_failed := False\<rparr>) = Feed_get_info f"
  by (cases "retrieval_failed f") (auto simp: Feed_get_info_def split: option.splits)

lemma report_loop_unflagged:
  assumes "\<forall>f\<in>set fs. retrieval_failed f \<longrightarrow> title f = None"
  shows "report_loop strftime (map (\<lambda>f. f\<lparr>retrieval_failed := False\<rparr>) fs)
           (out, map (\<lambda>f. f\<lparr>retrieval_failed := False\<rparr>) wo) =
         (fst (report_loop strftime fs (out, wo)),
          map (\<lambda>f. f\<lparr>retrieval_failed := False\<rparr>) (snd (report_loop strftime fs (out, wo))))"
  using assms
proof (induction fs arbitrary: out wo)
  case Nil
  show ?case by simp
next
  case (Cons f fs)
  from Cons.prems have i: "retrieval_failed f \<longrightarrow> title f = None"
    and r: "\<forall>f\<in>set fs. retrieval_failed f \<longrightarrow> title f = None" by simp_all
  note IH = Cons.IH [OF r]
  show ?case
  proof (cases "is_enabled f")
    case False
    then show ?thesis using IH [of out wo] by simp
  next
    case True
    show ?thesis
    proof (cases "entries f = []")
      case e: True
      from IH [of out "wo @ [f]"] True e show ?thesis by simp
    next
      case e: False
      from IH [of "out @ [Feed_get_info f] @ map (Entry_get_info strftime) (entries f) @ [[]]" wo]
        True e Feed_get_info_unflagged [OF i]
      show ?thesis by simp
    qed
  qed
qed

lemma report_loop_without:
  "set (snd (report_loop strftime fs (out, wo))) \<subseteq> set fs \<union> set wo"
proof (induction fs arbitrary: out wo)
  case Nil
  show ?case by simp
next
  case (Cons f fs)
  show ?case
    using Cons.IH [of out wo] Cons.IH [of out "wo @ [f]"]
      Cons.IH [of "out @ [Feed_get_info f] @ map (Entry_get_info strftime) (entries f) @ [[]]" wo]
    by auto
qed

lemma filter_map_unflagged:
  "filter is_enabled (map (\<lambda>f. f\<lparr>retrieval_failed := False\<rparr>) fs) =
     map (\<lambda>f. f\<lparr>retrieval_failed := False\<rparr>) (filter is_enabled fs)"
  by (induction fs) simp_all

lemma report_unflagged:
  assumes "\<forall>(k, f)\<in>set fd. retrieval_failed f \<longrightarrow> title f = None"
  shows "report strftime (map (\<lambda>(k, f). (k, f\<lparr>retrieval_failed := False\<rparr>)) fd) w =
         report strftime fd w"
proof -
  let ?c = "\<lambda>f. f\<lparr>retrieval_failed := False\<rparr>"
  let ?r = "report_loop strftime (map snd fd) (stdout w, [])"
  have inv: "\<forall>f\<in>set (map snd fd). retrieval_failed f \<longrightarrow> title f = None"
    using assms by auto
  have vals: "dict_values (map (\<lambda>(k, f). (k, ?c f)) fd) = map ?c (map snd fd)"
    by (simp add: dict_values_def case_prod_beta comp_def)
  from report_loop_unflagged [OF inv, of strftime "stdout w" "[]"]
  have loop: "report_loop strftime (map ?c (map snd fd)) (stdout w, []) = (fst ?r, map ?c (snd ?r))"
    by simp
  have "\<forall>f\<in>set (snd ?r). retrieval_failed f \<longrightarrow> title f = None"
    using report_loop_without [of strftime "map snd fd" "stdout w" "[]"] inv by auto
  then have "\<forall>f\<in>set (filter is_enabled (snd ?r)). Feed_get_info (?c f) = Feed_get_info f"
    by (auto intro: Feed_get_info_unflagged)
  then have infos: "map Feed_get_info (filter is_enabled (map ?c (snd ?r))) =
                    map Feed_get_info (filter is_enabled (snd ?r))"
    by (simp add: filter_map_unflagged)
  show ?thesis
    unfolding report_def vals loop
    by (simp add: dict_values_def infos case_prod_beta)
qed

text \<open>
  Claim C10. After the loop of a run every source with \<open>retrieval_failed\<close> has no title, so
  \<open>Feed.get_info\<close> gives for every source the text it gives without the flag, and the report
  is the report of the same sources without the flag.
\<close>

theorem retrieval_failed_suffix_never_printed:
  assumes "update_all parse (fst (get_feed_data strptime data_file date_format urls w)) = Inr fd'"
  shows "(\<forall>(k, f)\<in>set fd'.
            (retrieval_failed f \<longrightarrow> title f = None)
            \<and> Feed_get_info f = Feed_get_info (f\<lparr>retrieval_failed := False\<rparr>))
         \<and> report strftime fd' w' =
             report strftime (map (\<lambda>(k, f). (k, f\<lparr>retrieval_failed := False\<rparr>)) fd') w'"
proof -
  have inv: "\<forall>(k, f)\<in>set fd'. retrieval_failed f \<longrightarrow> title f = None"
  proof (clarify)
    fix k f' assume m: "(k, f') \<in> set fd'" and rf: "retrieval_failed f'"
    from update_all_set [OF assms m] obtain f where
      f: "(k, f) \<in> set (fst (get_feed_data strptime data_file date_format urls w))"
      and u: "updated parse f f'" by blast
    from get_feed_data_member [OF f] have fresh: "title f = None" "\<not> retrieval_failed f"
      by (auto simp: Feed_new_def)
    show "title f' = None"
    proof (cases "is_enabled f")
      case False
      with u fresh show ?thesis by (simp add: updated_def)
    next
      case True
      with u have uf: "update_feed parse f = Inr f'" by (simp add: updated_def)
      show ?thesis
      proof (cases "bozo (parse (url f))")
        case True
        with uf fresh show ?thesis by (auto simp: update_feed_bozo)
      next
        case False
        have "retrieval_failed f' = retrieval_failed f"
          by (subst update_feed_fetched [OF False uf]) simp
        with rf fresh show ?thesis by simp
      qed
    qed
  qed
  from inv have "\<forall>(k, f)\<in>set fd'. Feed_get_info f = Feed_get_info (f\<lparr>retrieval_failed := False\<rparr>)"
    by (auto simp: Feed_get_info_unflagged)
  with inv report_unflagged [OF inv, of strftime w'] show ?thesis by auto
qed

section \<open>Properties of the reference instance\<close>

text \<open>
  The reference instance writes every valid \<open>datetime\<close> in \<open>DATE_FORMAT\<close> and reads it
  back; the published times that \<open>update_feed\<close> builds are valid.
\<close>

lemma digit_val_digit_char: "0 \<le> d \<Longrightarrow> d \<le> 9 \<Longrightarrow> digit_val (digit_char d) = Some d"
proof -
  assume "0 \<le> d" "d \<le> 9"
  then have "d = 0 \<or> d = 1 \<or> d = 2 \<or> d = 3 \<or> d = 4 \<or> d = 5 \<or> d = 6 \<or> d = 7 \<or> d = 8 \<or> d = 9"
    by arith
  then show ?thesis
    by (elim disjE) (simp_all add: digit_val_def digit_char_def)
qed

lemma digit_mod: "0 \<le> n mod 10 \<and> n mod 10 \<le> (9::int)"
  by simp

lemma digit_val_mod: "digit_val (digit_char (x mod 10)) = Some (x mod 10)"
  by (simp add: digit_val_digit_char)

lemma two_nat: "(2::nat) = Suc (Suc 0)"
  by simp

lemma four_nat: "(4::nat) = Suc (Suc (Suc (Suc 0)))"
  by simp

lemma read_num_pad2:
  assumes "0 \<le> n" and "n < 100"
  shows "read_num 2 0 (pad2 n @ r) = Some (n, r)"
proof -
  have "read_num 2 0 (pad2 n @ r) = Some ((0 * 10 + n div 10 mod 10) * 10 + n mod 10, r)"
    by (simp only: pad2_def two_nat append_Cons append_Nil read_num.simps digit_val_mod option.case)
  also have "(0 * 10 + n div 10 mod 10) * 10 + n mod 10 = n" using assms by simp
  finally show ?thesis .
qed

lemma four_digits:
  assumes "0 \<le> n" and "n < 10000"
  shows "((n div 1000 mod 10 * 10 + n div 100 mod 10) * 10 + n div 10 mod 10) * 10 + n mod 10
           = (n::int)"
proof -
  define q1 where "q1 = n div 10"
  define q2 where "q2 = q1 div 10"
  define q3 where "q3 = q2 div 10"
  have a: "n div 100 = q2"
    using zdiv_zmult2_eq [of 10 n 10] by (simp add: q1_def q2_def)
  have b: "n div 1000 = q3"
    using zdiv_zmult2_eq [of 10 "n div 10" 10] zdiv_zmult2_eq [of 100 n 10]
    by (simp add: q1_def q2_def q3_def)
  from assms b have "0 \<le> q3" and "q3 < 10" by simp_all
  then have c: "q3 mod 10 = q3" by simp
  have 1: "q3 * 10 + q2 mod 10 = q2" unfolding q3_def by simp
  have 2: "q2 * 10 + q1 mod 10 = q1" unfolding q2_def by simp
  have 3: "q1 * 10 + n mod 10 = n" unfolding q1_def by simp
  show ?thesis
    unfolding a b c by (simp only: q1_def [symmetric] 1 2 3)
qed

lemma read_num_pad4:
  assumes "0 \<le> n" and "n < 10000"
  shows "read_num 4 0 (pad4 n @ r) = Some (n, r)"
proof -
  have "read_num 4 0 (pad4 n @ r) =
          Some ((((0 * 10 + n div 1000 mod 10) * 10 + n div 100 mod 10) * 10 + n div 10 mod 10) * 10
                  + n mod 10, r)"
    by (simp only: pad4_def four_nat append_Cons append_Nil read_num.simps digit_val_mod option.case)
  also have "(((0 * 10 + n div 1000 mod 10) * 10 + n div 100 mod 10) * 10 + n div 10 mod 10) * 10
                  + n mod 10 = n"
    using four_digits [OF assms] by (simp only: mult_zero_left add_0_left)
  finally show ?thesis .
qed

lemma seconds_split:
  assumes "0 \<le> a"
  shows "a div 3600 * 3600 + a div 60 mod 60 * 60 + a mod 60 = (a::int)"
proof -
  define q where "q = a div 60"
  have h: "a div 3600 = q div 60"
    using zdiv_zmult2_eq [of 60 a 60] by (simp add: q_def)
  have 1: "q div 60 * 60 + q mod 60 = q" by simp
  have 2: "q * 60 + a mod 60 = a" unfolding q_def by simp
  have "q div 60 * 3600 = q div 60 * 60 * 60" by simp
  then have "q div 60 * 3600 + q mod 60 * 60 = (q div 60 * 60 + q mod 60) * 60"
    by (simp only: distrib_right)
  then have "q div 60 * 3600 + q mod 60 * 60 + a mod 60 = a"
    by (simp only: 1 2)
  then show ?thesis by (simp only: h q_def [symmetric])
qed

lemma read_offset_fmt_offset:
  assumes "\<bar>off\<bar> < 86400"
  shows "read_offset (fmt_offset off) = Some (off, [])"
proof -
  define a where "a = \<bar>off\<bar>"
  define c where "c = (if off < 0 then CHR ''-'' else CHR ''+'')"
  define rest where "rest = (if a mod 60 \<noteq> 0 then pad2 (a mod 60) else [])"
  have a0: "0 \<le> a" and a1: "a < 86400" using assms by (simp_all add: a_def)
  have hh: "0 \<le> a div 3600" "a div 3600 < 100" using a0 a1 by simp_all
  have mm: "0 \<le> a div 60 mod 60" "a div 60 mod 60 < 100" "\<not> a div 60 mod 60 > 59"
    by simp_all
  have ss: "0 \<le> a mod 60" "a mod 60 < 100" "\<not> a mod 60 > 59" by simp_all
  have f: "fmt_offset off = c # (pad2 (a div 3600) @ (pad2 (a div 60 mod 60) @ rest))"
    by (simp add: fmt_offset_def a_def c_def rest_def)
  have c: "c = CHR ''+'' \<or> c = CHR ''-''" by (simp add: c_def)
  have sg: "(if c = CHR ''-'' then - 1 else 1) * a = off"
    by (simp add: c_def a_def)
  have r1: "read_num 2 0 (pad2 (a div 3600) @ (pad2 (a div 60 mod 60) @ rest))
              = Some (a div 3600, pad2 (a div 60 mod 60) @ rest)"
    by (rule read_num_pad2 [OF hh])
  have r2: "read_num 2 0 (pad2 (a div 60 mod 60) @ rest) = Some (a div 60 mod 60, rest)"
    by (rule read_num_pad2 [OF mm(1,2)])
  show ?thesis
  proof (cases "a mod 60 = 0")
    case True
    then have rest: "rest = []" by (simp add: rest_def)
    have r3: "read_num 2 0 rest = None" by (simp add: rest two_nat)
    have "a div 3600 * 3600 + a div 60 mod 60 * 60 = a"
      using seconds_split [OF a0] True by simp
    with sg have "(if c = CHR ''-'' then - 1 else 1) * (a div 3600 * 3600 + a div 60 mod 60 * 60)
                    = off" by simp
    then show ?thesis
      unfolding f read_offset_def rest using c
      by (simp only: list.case r1 [unfolded rest] r2 [unfolded rest] r3 [unfolded rest]
            option.case prod.case mm(3) if_True if_False)
  next
    case False
    then have rest: "rest = pad2 (a mod 60) @ []" by (simp add: rest_def)
    have r3: "read_num 2 0 rest = Some (a mod 60, [])"
      unfolding rest by (rule read_num_pad2 [OF ss(1,2)])
    from sg seconds_split [OF a0]
    have "(if c = CHR ''-'' then - 1 else 1)
            * (a div 3600 * 3600 + a div 60 mod 60 * 60 + a mod 60) = off" by simp
    then show ?thesis
      unfolding f read_offset_def rest using c
      by (simp only: list.case r1 [unfolded rest] r2 [unfolded rest] r3 [unfolded rest]
            option.case prod.case mm(3) ss(3) if_True if_False)
  qed
qed

lemma strftime_c_DATE_FORMAT:
  "strftime_c t DATE_FORMAT =
     pad4 (year t) @ CHR ''-'' # pad2 (month t) @ CHR ''-'' # pad2 (day t) @ CHR ''T'' #
     pad2 (hour t) @ CHR '':'' # pad2 (minute t) @ CHR '':'' # pad2 (second t) @
     fmt_offset (utcoffset t)"
  by (simp add: DATE_FORMAT_def directive_def)

lemma valid_datetime_ranges:
  assumes "valid_datetime t"
  shows "0 \<le> year t" "year t < 10000" "0 \<le> month t" "month t < 100" "0 \<le> day t" "day t < 100"
    "0 \<le> hour t" "hour t < 100" "0 \<le> minute t" "minute t < 100" "0 \<le> second t" "second t < 100"
    "\<bar>utcoffset t\<bar> < 86400"
proof -
  from assms have r: "1 \<le> year t \<and> year t \<le> 9999 \<and> 1 \<le> month t \<and> month t \<le> 12 \<and> 1 \<le> day t
      \<and> day t \<le> days_in_month (year t) (month t)
      \<and> 0 \<le> hour t \<and> hour t \<le> 23 \<and> 0 \<le> minute t \<and> minute t \<le> 59
      \<and> 0 \<le> second t \<and> second t \<le> 59" and o: "\<bar>utcoffset t\<bar> < 86400"
    by (auto simp: valid_datetime_def datetime_new_def split: if_splits)
  have "days_in_month (year t) (month t) \<le> 31"
  proof -
    from r have "month t = 1 \<or> month t = 2 \<or> month t = 3 \<or> month t = 4 \<or> month t = 5
        \<or> month t = 6 \<or> month t = 7 \<or> month t = 8 \<or> month t = 9 \<or> month t = 10
        \<or> month t = 11 \<or> month t = 12" by arith
    then have "month t \<in> {1, 2, 3, 4, 5, 6, 7, 8, 9, 10, 11, 12}" by auto
    then show ?thesis by (auto simp: days_in_month_def)
  qed
  with r o show "0 \<le> year t" "year t < 10000" "0 \<le> month t" "month t < 100" "0 \<le> day t"
    "day t < 100" "0 \<le> hour t" "hour t < 100" "0 \<le> minute t" "minute t < 100"
    "0 \<le> second t" "second t < 100" "\<bar>utcoffset t\<bar> < 86400"
    by simp_all
qed

lemma read_fields_DATE_FORMAT:
  assumes "valid_datetime t"
  shows "read_fields DATE_FORMAT (strftime_c t DATE_FORMAT) t0 =
           Some (t0\<lparr>year := year t, month := month t, day := day t, hour := hour t,
                     minute := minute t, second := second t, utcoffset := utcoffset t\<rparr>)"
proof -
  note r = valid_datetime_ranges [OF assms]
  show ?thesis
    unfolding strftime_c_DATE_FORMAT
    by (simp add: DATE_FORMAT_def read_directive_def
          read_num_pad4 [OF r(1,2)] read_num_pad2 [OF r(3,4)] read_num_pad2 [OF r(5,6)]
          read_num_pad2 [OF r(7,8)] read_num_pad2 [OF r(9,10)] read_num_pad2 [OF r(11,12)]
          read_offset_fmt_offset [OF r(13)])
qed

lemma strptime_c_strftime_c:
  assumes "valid_datetime t"
  shows "strptime_c (strftime_c t DATE_FORMAT) DATE_FORMAT = Some t"
proof -
  from assms have "datetime_new (year t) (month t) (day t) (hour t) (minute t) (second t)
                     (utcoffset t) = Inr t"
    by (simp add: valid_datetime_def)
  then show ?thesis
    by (simp add: strptime_c_def read_fields_DATE_FORMAT [OF assms])
qed

lemma stamp_char_digit [simp]: "stamp_char (digit_char d)"
  by (simp add: digit_char_def stamp_char_def)

lemma stamp_pad2 [simp]: "list_all stamp_char (pad2 n)"
  by (simp add: pad2_def)

lemma stamp_pad4 [simp]: "list_all stamp_char (pad4 n)"
  by (simp add: pad4_def)

lemma stamp_fmt_offset [simp]: "list_all stamp_char (fmt_offset off)"
  by (simp add: fmt_offset_def stamp_char_def)

lemma stamp_strftime_c: "list_all stamp_char (strftime_c t DATE_FORMAT)"
  unfolding strftime_c_DATE_FORMAT by (simp add: stamp_char_def)

lemma stamp_char_plain:
  assumes "stamp_char c"
  shows "\<not> isspace c" and "c \<noteq> CHR 0x0A" and "c \<noteq> CHR ''l''"
  using assms by (auto simp: stamp_char_def isspace_def)

lemma find_sep_absent_char: "c \<notin> set s \<Longrightarrow> find_sep (c # sep) s = None"
  by (induction s) auto

lemma strip_no_space:
  assumes "\<forall>c\<in>set s. \<not> isspace c"
  shows "strip s = s"
proof -
  have "dropWhile isspace xs = xs" if "\<forall>c\<in>set xs. \<not> isspace c" for xs
    using that by (cases xs) simp_all
  from this [of s] this [of "rev s"] assms show ?thesis
    by (simp add: strip_def)
qed

lemma reads_back_reference:
  assumes "valid_datetime t"
  shows "reads_back strftime_c strptime_c DATE_FORMAT t"
proof -
  let ?s = "strftime_c t DATE_FORMAT"
  have all: "\<forall>c\<in>set ?s. stamp_char c"
    using stamp_strftime_c [of t] by (simp only: list_all_iff)
  have sp: "\<forall>c\<in>set ?s. \<not> isspace c"
    using all stamp_char_plain(1) by blast
  have 1: "strptime_c (strip ?s) DATE_FORMAT = Some t"
    by (simp only: strip_no_space [OF sp] strptime_c_strftime_c [OF assms])
  have 2: "CHR 0x0A \<notin> set ?s" using all stamp_char_plain(2) by blast
  have "CHR ''l'' \<notin> set ?s" using all stamp_char_plain(3) by blast
  then have 3: "find_sep ''last updated'' ?s = None" by (rule find_sep_absent_char)
  from 1 2 3 show ?thesis by (simp only: reads_back_def simp_thms)
qed

lemma datetime_new_valid:
  assumes "datetime_new y m d H M S off = Inr t" and "\<bar>off\<bar> < 86400"
  shows "valid_datetime t"
proof -
  from assms(1) have t: "t = \<lparr>year = y, month = m, day = d, hour = H, minute = M, second = S,
                                utcoffset = off\<rparr>"
    by (simp add: datetime_new_def split: if_splits)
  from assms show ?thesis unfolding t valid_datetime_def by simp
qed

lemma item_date_valid: "item_date e = Some t \<Longrightarrow> valid_datetime t"
  by (auto simp: item_date_def split: option.splits prod.splits sum.splits
           intro: datetime_new_valid)

lemma reference_round_trip:
  assumes "distinct (map fst fd)"
    and "\<forall>(k, f)\<in>set fd. url f = k \<and> storable_url k
           \<and> (\<forall>t. newest_retrieved_date f = Some t \<longrightarrow> valid_datetime t)"
    and "(k, f) \<in> set fd"
  shows "\<exists>f'. map_of (fst (get_feed_data strptime_c data_file DATE_FORMAT urls
                            (save_feed_data strftime_c data_file DATE_FORMAT fd w))) k = Some f'
              \<and> newest_retrieved_date f' = newest_retrieved_date f"
proof -
  have "\<forall>(k, f)\<in>set fd. storable_feed strftime_c strptime_c DATE_FORMAT k f"
    using assms(2) by (auto simp: storable_feed_def reads_back_reference split: option.splits)
  from loaded_watermark_of_saved [OF refl assms(1) this assms(3)] show ?thesis .
qed

section \<open>The concrete run\<close>

lemma ex_run: "update_all ex_parse (fst (get_feed_data strptime_c DATA_FILE DATE_FORMAT ex_urls ex_world))
     = Inr ex_after"
  by code_simp


text \<open>
  The merge of the concrete run: a persisted URL that is not configured, a configured URL
  with a watermark, a configured URL whose watermark does not parse, and a URL that is neither.
\<close>

theorem merge_of_configured_and_persisted_witness:
  "map_of (fst (get_feed_data strptime_c DATA_FILE DATE_FORMAT ex_urls ex_world)) ''http://c'' =
     Some ((Feed_new ''http://c'' False)\<lparr>newest_retrieved_date := Some ex_time_c\<rparr>)
   \<and> map_of (fst (get_feed_data strptime_c DATA_FILE DATE_FORMAT ex_urls ex_world)) ''http://b'' =
       Some ex_b
   \<and> map_of (fst (get_feed_data strptime_c DATA_FILE DATE_FORMAT ex_urls ex_world))
         ''https://example.com/feed'' = Some (Feed_new ''https://example.com/feed'' True)
   \<and> map_of (fst (get_feed_data strptime_c DATA_FILE DATE_FORMAT ex_urls ex_world)) ''http://d'' =
       None"
proof -
  have c: "merge ex_urls (persisted strptime_c DATE_FORMAT (files ex_world DATA_FILE)) ''http://c''
             = Some ((Feed_new ''http://c'' False)\<lparr>newest_retrieved_date := Some ex_time_c\<rparr>)"
    by code_simp
  have b: "merge ex_urls (persisted strptime_c DATE_FORMAT (files ex_world DATA_FILE)) ''http://b''
             = Some ex_b"
    by code_simp
  have e: "merge ex_urls (persisted strptime_c DATE_FORMAT (files ex_world DATA_FILE))
             ''https://example.com/feed'' = Some (Feed_new ''https://example.com/feed'' True)"
    by code_simp
  have d: "merge ex_urls (persisted strptime_c DATE_FORMAT (files ex_world DATA_FILE)) ''http://d''
             = None"
    by code_simp
  from merge_of_configured_and_persisted [of strptime_c DATA_FILE DATE_FORMAT ex_urls ex_world]
  have "map_of (fst (get_feed_data strptime_c DATA_FILE DATE_FORMAT ex_urls ex_world)) =
          merge ex_urls (persisted strptime_c DATE_FORMAT (files ex_world DATA_FILE))"
    by (rule conjunct1)
  with c b e d show ?thesis by simp
qed







text \<open>
  A first run, with no configuration file and no data file.
\<close>

theorem nothing_configured_exits_cleanly_witness:
  "fst (get_url_list FEED_FILE ex_new_world) = []
   \<and> fst (main strptime_c strftime_c ex_parse ex_new_world) = Exit 0
   \<and> stderr (snd (main strptime_c strftime_c ex_parse ex_new_world)) =
       [''No URLs listed in ~/.plaintextfeeds; exiting.'']
   \<and> files (snd (main strptime_c strftime_c ex_parse ex_new_world)) DATA_FILE = None"
proof -
  have h: "fst (get_url_list FEED_FILE ex_new_world) = []" by code_simp
  note T = nothing_configured_exits_cleanly [OF h, of strptime_c strftime_c ex_parse]
  have e: "stderr ex_new_world @ [''No URLs listed in '' @ FEED_FILE @ ''; exiting.'']
             = [''No URLs listed in ~/.plaintextfeeds; exiting.'']" by code_simp
  have d: "files ex_new_world DATA_FILE = None" by code_simp
  show ?thesis
    apply (intro conjI)
       apply (rule h)
      apply (rule T [THEN conjunct1])
     apply (rule trans [OF T [THEN conjunct2, THEN conjunct1] e])
    apply (rule trans [OF T [THEN conjunct2, THEN conjunct2, THEN conjunct2, THEN conjunct1] d])
    done
qed

text \<open>
  The concrete run: \<open>http://b\<close> failed, has no title, and is printed by its URL alone.
\<close>

theorem retrieval_failed_suffix_never_printed_witness:
  "update_all ex_parse (fst (get_feed_data strptime_c DATA_FILE DATE_FORMAT ex_urls ex_world))
     = Inr ex_after
   \<and> (''http://b'', ex_b\<lparr>retrieval_failed := True\<rparr>) \<in> set ex_after
   \<and> retrieval_failed (ex_b\<lparr>retrieval_failed := True\<rparr>)
   \<and> title (ex_b\<lparr>retrieval_failed := True\<rparr>) = None
   \<and> Feed_get_info (ex_b\<lparr>retrieval_failed := True\<rparr>) = ''Feed: http://b''"
proof -
  note T = retrieval_failed_suffix_never_printed [OF ex_run, of strftime_c ex_world]
  have m: "(''http://b'', ex_b\<lparr>retrieval_failed := True\<rparr>) \<in> set ex_after"
    by (simp add: ex_after_def)
  have r: "retrieval_failed (ex_b\<lparr>retrieval_failed := True\<rparr>)" by simp
  from T [THEN conjunct1, THEN bspec, OF m]
  have i: "(retrieval_failed (ex_b\<lparr>retrieval_failed := True\<rparr>) \<longrightarrow>
              title (ex_b\<lparr>retrieval_failed := True\<rparr>) = None)
           \<and> Feed_get_info (ex_b\<lparr>retrieval_failed := True\<rparr>) =
               Feed_get_info (ex_b\<lparr>retrieval_failed := True, retrieval_failed := False\<rparr>)"
    by simp
  have g: "Feed_get_info (ex_b\<lparr>retrieval_failed := True, retrieval_failed := False\<rparr>)
             = ''Feed: http://b''" by code_simp
  show ?thesis
    apply (intro conjI)
        apply (rule ex_run)
       apply (rule m)
      apply (rule r)
     apply (rule i [THEN conjunct1, THEN mp, OF r])
    apply (rule trans [OF i [THEN conjunct2] g])
    done
qed



end
